theory Spec2Isabelle
  imports Main "HOL-Library.AList"
begin

section \<open>Python strings\<close>

text \<open>
  A text is a Python \<open>str\<close> whose code points are below 256: one \<^typ>\<open>char\<close> per code
  point. The character classes below are the ones Python 3 uses on that range:
  \<open>str.isspace\<close> and \<open>\s\<close> agree, \<open>\d\<close> is the ten ASCII digits, \<open>\w\<close> is
  \<open>str.isalnum\<close> plus the underscore.
\<close>

definition is_space :: "char \<Rightarrow> bool" where
  "is_space c = ((of_char c :: nat) \<in> set [9, 10, 11, 12, 13, 28, 29, 30, 31, 32, 133, 160])"

definition is_digit :: "char \<Rightarrow> bool" where
  "is_digit c = (48 \<le> (of_char c :: nat) \<and> (of_char c :: nat) \<le> 57)"

definition is_word :: "char \<Rightarrow> bool" where
  "is_word c = (let n = (of_char c :: nat) in
     (48 \<le> n \<and> n \<le> 57) \<or> (65 \<le> n \<and> n \<le> 90) \<or> n = 95 \<or> (97 \<le> n \<and> n \<le> 122) \<or>
     n \<in> set [170, 178, 179, 181, 185, 186, 188, 189, 190] \<or>
     (192 \<le> n \<and> n \<le> 214) \<or> (216 \<le> n \<and> n \<le> 246) \<or> 248 \<le> n)"

definition not_newline :: "char \<Rightarrow> bool" where
  "not_newline c = (c \<noteq> CHR 0x0A)"

definition upper_chars :: "char list" where
  "upper_chars = ''ABCDEFGHIJKLMNOPQRSTUVWXYZ'' @
     [CHR 0xC0, CHR 0xC1, CHR 0xC2, CHR 0xC3, CHR 0xC4, CHR 0xC5, CHR 0xC6, CHR 0xC7,
      CHR 0xC8, CHR 0xC9, CHR 0xCA, CHR 0xCB, CHR 0xCC, CHR 0xCD, CHR 0xCE, CHR 0xCF,
      CHR 0xD0, CHR 0xD1, CHR 0xD2, CHR 0xD3, CHR 0xD4, CHR 0xD5, CHR 0xD6,
      CHR 0xD8, CHR 0xD9, CHR 0xDA, CHR 0xDB, CHR 0xDC, CHR 0xDD, CHR 0xDE]"

definition lower_chars :: "char list" where
  "lower_chars = ''abcdefghijklmnopqrstuvwxyz'' @
     [CHR 0xE0, CHR 0xE1, CHR 0xE2, CHR 0xE3, CHR 0xE4, CHR 0xE5, CHR 0xE6, CHR 0xE7,
      CHR 0xE8, CHR 0xE9, CHR 0xEA, CHR 0xEB, CHR 0xEC, CHR 0xED, CHR 0xEE, CHR 0xEF,
      CHR 0xF0, CHR 0xF1, CHR 0xF2, CHR 0xF3, CHR 0xF4, CHR 0xF5, CHR 0xF6,
      CHR 0xF8, CHR 0xF9, CHR 0xFA, CHR 0xFB, CHR 0xFC, CHR 0xFD, CHR 0xFE]"

definition lower_char :: "char \<Rightarrow> char" where
  "lower_char c = (case map_of (zip upper_chars lower_chars) c of Some d \<Rightarrow> d | None \<Rightarrow> c)"

text \<open>\<open>s.lower()\<close>\<close>

definition lower :: "string \<Rightarrow> string" where
  "lower s = map lower_char s"

text \<open>\<open>s.startswith(k)\<close> and \<open>k in s\<close>\<close>

fun starts_with :: "string \<Rightarrow> string \<Rightarrow> bool" where
  "starts_with [] s = True"
| "starts_with (k # ks) [] = False"
| "starts_with (k # ks) (c # cs) = (k = c \<and> starts_with ks cs)"

fun contains :: "string \<Rightarrow> string \<Rightarrow> bool" where
  "contains k [] = (k = [])"
| "contains k (c # cs) = (starts_with k (c # cs) \<or> contains k cs)"

text \<open>\<open>any(k in s for k in ks)\<close>\<close>

definition any_in :: "string list \<Rightarrow> string \<Rightarrow> bool" where
  "any_in ks s = list_ex (\<lambda>k. contains k s) ks"

text \<open>\<open>s.find(k)\<close>: the lowest index where \<open>k\<close> starts, or \<open>-1\<close>.\<close>

fun find_from :: "string \<Rightarrow> string \<Rightarrow> int \<Rightarrow> int" where
  "find_from k [] i = (if k = [] then i else -1)"
| "find_from k (c # cs) i = (if starts_with k (c # cs) then i else find_from k cs (i + 1))"

definition py_find :: "string \<Rightarrow> string \<Rightarrow> int" where
  "py_find s k = find_from k s 0"

text \<open>\<open>s[i:]\<close>: a negative index counts from the end.\<close>

definition slice_from :: "string \<Rightarrow> int \<Rightarrow> string" where
  "slice_from s i = (if i < 0 then drop (nat (int (length s) + i)) s else drop (nat i) s)"

text \<open>\<open>s.strip()\<close>\<close>

definition strip :: "string \<Rightarrow> string" where
  "strip s = rev (dropWhile is_space (rev (dropWhile is_space s)))"

text \<open>\<open>sep.join(xs)\<close>\<close>

fun join :: "string \<Rightarrow> string list \<Rightarrow> string" where
  "join sep [] = []"
| "join sep [x] = x"
| "join sep (x # y # ys) = x @ sep @ join sep (y # ys)"

section \<open>Exceptions\<close>

text \<open>
  What a call can raise. \<open>NonException\<close> stands for the classes that derive from
  BaseException only (KeyboardInterrupt, SystemExit), which \<open>except Exception\<close> lets
  through; every other constructor is an instance of Exception.
\<close>

datatype pyexc =
    TypeError
  | ValueError
  | AttributeError
  | OtherException string
  | NonException string

fun is_exception :: "pyexc \<Rightarrow> bool" where
  "is_exception (NonException msg) = False"
| "is_exception e = True"

text \<open>\<open>str(e)\<close>; for the built-in errors the name of the class stands for the message.\<close>

fun exc_str :: "pyexc \<Rightarrow> string" where
  "exc_str TypeError = ''TypeError''"
| "exc_str ValueError = ''ValueError''"
| "exc_str AttributeError = ''AttributeError''"
| "exc_str (OtherException msg) = msg"
| "exc_str (NonException msg) = msg"

text \<open>
  \<open>int(s)\<close> on what a group captured. A group that took no part in the match is
  \<open>None\<close> and \<open>int(None)\<close> raises TypeError; a string that is not a run of digits
  raises ValueError, and so does a run of more than 4300 digits, leading zeros counted:
  that is \<open>sys.get_int_max_str_digits()\<close>, the interpreter's limit on the conversion
  of a string to an integer.
\<close>

definition int_max_str_digits :: nat where
  "int_max_str_digits = 4300"

definition digit_val :: "char \<Rightarrow> int" where
  "digit_val c = int (of_char c) - 48"

definition py_int :: "string option \<Rightarrow> pyexc + int" where
  "py_int g = (case g of
       None \<Rightarrow> Inl TypeError
     | Some ds \<Rightarrow> if ds \<noteq> [] \<and> list_all is_digit ds \<and> length ds \<le> int_max_str_digits
                 then Inr (foldl (\<lambda>n c. 10 * n + digit_val c) 0 ds)
                 else Inl ValueError)"

section \<open>Regular expressions\<close>

text \<open>
  The fragment of Python's \<open>re\<close> syntax that the program's patterns are written in:
  literals, \<open>c*\<close> and \<open>c+\<close> on a character class, \<open>r?\<close>, \<open>r|s\<close>, concatenation, one
  capturing group and \<open>\b\<close>. Non-capturing groups \<open>(?:...)\<close> are the nesting of the
  term itself.
\<close>

datatype regex =
    Lit string
  | Star "char \<Rightarrow> bool"
  | Plus "char \<Rightarrow> bool"
  | Opt regex
  | Alt regex regex
  | Seq regex regex
  | Group regex
  | WordB

fun seqs :: "regex list \<Rightarrow> regex" where
  "seqs [] = Lit []"
| "seqs [r] = r"
| "seqs (r # rs) = Seq r (seqs rs)"

fun alts :: "regex list \<Rightarrow> regex" where
  "alts [] = Lit []"
| "alts [r] = r"
| "alts (r # rs) = Alt r (alts rs)"

text \<open>
  The matcher's position: the character before it (for \<open>\b\<close>), the text still to be
  read and what group 1 holds.
\<close>

datatype mstate = MS (prev: "char option") (rest: string) (grp: "string option")

text \<open>With \<open>re.IGNORECASE\<close> a literal character matches in either case.\<close>

definition same_char :: "bool \<Rightarrow> char \<Rightarrow> char \<Rightarrow> bool" where
  "same_char ic p c = (p = c \<or> (ic \<and> lower_char p = lower_char c))"

fun lit :: "bool \<Rightarrow> string \<Rightarrow> mstate \<Rightarrow> mstate option" where
  "lit ic [] st = Some st"
| "lit ic (p # ps) (MS pv [] g) = None"
| "lit ic (p # ps) (MS pv (c # cs) g) =
     (if same_char ic p c then lit ic ps (MS (Some c) cs g) else None)"

text \<open>
  Greedy repetition: take one more character of the class first, and give it back
  when the rest of the pattern fails behind it.
\<close>

function star :: "(char \<Rightarrow> bool) \<Rightarrow> (mstate \<Rightarrow> mstate option) \<Rightarrow> mstate \<Rightarrow> mstate option" where
  "star p k (MS pv [] g) = k (MS pv [] g)"
| "star p k (MS pv (c # cs) g) =
     (if p c
      then (case star p k (MS (Some c) cs g) of
              Some r \<Rightarrow> Some r
            | None \<Rightarrow> k (MS pv (c # cs) g))
      else k (MS pv (c # cs) g))"
  by pat_completeness auto
termination
  by (relation "measure (\<lambda>(p, k, st). length (rest st))") auto

definition at_boundary :: "mstate \<Rightarrow> bool" where
  "at_boundary st =
     ((case prev st of None \<Rightarrow> False | Some c \<Rightarrow> is_word c) \<noteq>
      (case rest st of [] \<Rightarrow> False | c # _ \<Rightarrow> is_word c))"

text \<open>
  A backtracking matcher in continuation style, as \<open>re\<close> is: \<open>mtch ic r k st\<close> matches
  \<open>r\<close> at \<open>st\<close> and hands each way of matching it, in priority order, to \<open>k\<close> until
  \<open>k\<close> accepts one.
\<close>

primrec mtch :: "bool \<Rightarrow> regex \<Rightarrow> (mstate \<Rightarrow> mstate option) \<Rightarrow> mstate \<Rightarrow> mstate option" where
  "mtch ic (Lit s) k st = (case lit ic s st of None \<Rightarrow> None | Some st' \<Rightarrow> k st')"
| "mtch ic (Star p) k st = star p k st"
| "mtch ic (Plus p) k st =
     (case rest st of
        [] \<Rightarrow> None
      | c # cs \<Rightarrow> if p c then star p k (MS (Some c) cs (grp st)) else None)"
| "mtch ic (Opt r) k st =
     (case mtch ic r k st of Some x \<Rightarrow> Some x | None \<Rightarrow> k st)"
| "mtch ic (Alt r1 r2) k st =
     (case mtch ic r1 k st of Some x \<Rightarrow> Some x | None \<Rightarrow> mtch ic r2 k st)"
| "mtch ic (Seq r1 r2) k st = mtch ic r1 (mtch ic r2 k) st"
| "mtch ic (Group r) k st =
     mtch ic r (\<lambda>st'. k (MS (prev st') (rest st')
                            (Some (take (length (rest st) - length (rest st')) (rest st))))) st"
| "mtch ic WordB k st = (if at_boundary st then k st else None)"

text \<open>A match object: where the match starts and ends, and \<open>group(1)\<close>.\<close>

datatype rmatch = RMatch (m_start: nat) (m_end: nat) (group1: "string option")

text \<open>\<open>re.search\<close>: the first position from the left where the pattern matches.\<close>

fun scan :: "bool \<Rightarrow> regex \<Rightarrow> nat \<Rightarrow> char option \<Rightarrow> string \<Rightarrow> rmatch option" where
  "scan ic r i pv s =
     (case mtch ic r Some (MS pv s None) of
        Some st \<Rightarrow> Some (RMatch i (i + (length s - length (rest st))) (grp st))
      | None \<Rightarrow> (case s of [] \<Rightarrow> None | c # cs \<Rightarrow> scan ic r (Suc i) (Some c) cs))"

definition re_search :: "bool \<Rightarrow> regex \<Rightarrow> string \<Rightarrow> rmatch option" where
  "re_search ic r s = scan ic r 0 None s"

text \<open>
  \<open>re.findall\<close> for a pattern without groups, and \<open>re.sub\<close>: the matches from left to
  right, each search starting where the last match ended. The patterns of this program
  all hold a literal, so no match is empty; an empty match is stepped over.
\<close>

function findall_from :: "bool \<Rightarrow> regex \<Rightarrow> char option \<Rightarrow> string \<Rightarrow> string list" where
  "findall_from ic r pv s =
     (case mtch ic r Some (MS pv s None) of
        Some st \<Rightarrow>
          (let n = length s - length (rest st) in
           if n = 0
           then (case s of [] \<Rightarrow> [] | c # cs \<Rightarrow> findall_from ic r (Some c) cs)
           else take n s # findall_from ic r (prev st) (drop n s))
      | None \<Rightarrow> (case s of [] \<Rightarrow> [] | c # cs \<Rightarrow> findall_from ic r (Some c) cs))"
  by pat_completeness auto
termination
  by (relation "measure (\<lambda>(ic, r, pv, s). length s)") auto

definition re_findall :: "bool \<Rightarrow> regex \<Rightarrow> string \<Rightarrow> string list" where
  "re_findall ic r s = findall_from ic r None s"

function sub_from :: "bool \<Rightarrow> regex \<Rightarrow> string \<Rightarrow> char option \<Rightarrow> string \<Rightarrow> string" where
  "sub_from ic r repl pv s =
     (case mtch ic r Some (MS pv s None) of
        Some st \<Rightarrow>
          (let n = length s - length (rest st) in
           if n = 0
           then (case s of [] \<Rightarrow> [] | c # cs \<Rightarrow> c # sub_from ic r repl (Some c) cs)
           else repl @ sub_from ic r repl (prev st) (drop n s))
      | None \<Rightarrow> (case s of [] \<Rightarrow> [] | c # cs \<Rightarrow> c # sub_from ic r repl (Some c) cs))"
  by pat_completeness auto
termination
  by (relation "measure (\<lambda>(ic, r, repl, pv, s). length s)") auto

definition re_sub :: "bool \<Rightarrow> regex \<Rightarrow> string \<Rightarrow> string \<Rightarrow> string" where
  "re_sub ic r repl s = sub_from ic r repl None s"

text \<open>
  Two notions for reasoning about group 1: a pattern that holds no group, and a capture
  that is a non-empty run of characters of one class.
\<close>

fun groupless :: "regex \<Rightarrow> bool" where
  "groupless (Group r) = False"
| "groupless (Opt r) = groupless r"
| "groupless (Alt r1 r2) = (groupless r1 \<and> groupless r2)"
| "groupless (Seq r1 r2) = (groupless r1 \<and> groupless r2)"
| "groupless r = True"

definition captured :: "(char \<Rightarrow> bool) \<Rightarrow> string option \<Rightarrow> bool" where
  "captured p g = (\<exists>ds. g = Some ds \<and> ds \<noteq> [] \<and> list_all p ds)"

text \<open>
  Whether the first match of a pattern in a text captures more digits than \<open>int\<close>
  converts.
\<close>

definition over_long :: "regex \<Rightarrow> string \<Rightarrow> bool" where
  "over_long r s =
     (case re_search False r s of
        None \<Rightarrow> False
      | Some m \<Rightarrow>
          (case group1 m of
             None \<Rightarrow> False
           | Some ds \<Rightarrow> int_max_str_digits < length ds))"

section \<open>The agent (src/MCP_Tool/claude_test.py)\<close>

text \<open>
  Values of an argument set (\<open>Dict[str, Any]\<close>) and Python's truth test on them.
  A dictionary keeps its keys in insertion order: an association list, with
  \<^const>\<open>AList.update\<close> for \<open>params[k] = v\<close>.
\<close>

datatype pyval = VStr string | VInt int | VBool bool | VList "string list"

fun truthy :: "pyval \<Rightarrow> bool" where
  "truthy (VStr s) = (s \<noteq> [])"
| "truthy (VInt n) = (n \<noteq> 0)"
| "truthy (VBool b) = b"
| "truthy (VList xs) = (xs \<noteq> [])"

type_synonym params = "(string \<times> pyval) list"

text \<open>
  A tool of \<open>self.tools\<close>: its name and what \<open>_run(**params)\<close> does, which is a remote
  call and may raise. \<open>agent_run\<close> is \<open>self.agent.run\<close>, the free-form completion.
  \<open>get_firecrawl_tools\<close> and the language model are outside the repository's sources:
  they are the fields of the agent that a caller supplies.
\<close>

record tool =
  name :: string
  run :: "params \<Rightarrow> pyexc + string"

record agent =
  tools :: "tool list"
  agent_run :: "string \<Rightarrow> pyexc + string"
  tool_patterns :: "(string \<times> regex list) list"

subsection \<open>The pattern catalog\<close>

definition ws0 :: regex where
  "ws0 = Star is_space"

definition ws1 :: regex where
  "ws1 = Plus is_space"

definition digits :: regex where
  "digits = Plus is_digit"

definition anything :: regex where
  "anything = Star not_newline"

text \<open>\<open>words?\<close>\<close>

definition plural :: "string \<Rightarrow> regex" where
  "plural w = Seq (Lit w) (Opt (Lit ''s''))"

definition scrape_patterns :: "regex list" where
  "scrape_patterns =
    [seqs [Lit ''scrap'', Opt (Lit ''e''), ws1, Opt (Seq (Lit ''the'') ws1),
           alts [Lit ''website'', Lit ''page'', Lit ''url'', Lit ''site'']],
     seqs [Lit ''get'', ws1, Lit ''content'', ws1, Lit ''from''],
     seqs [Lit ''extract'', ws1, alts [Lit ''data'', Lit ''content'', Lit ''text''], ws1,
           Lit ''from'', ws1, alts [Lit ''website'', Lit ''url'', Lit ''page'']],
     seqs [Lit ''fetch'', ws1, alts [Lit ''data'', Lit ''content''], ws1, Lit ''from'']]"

definition crawl_patterns :: "regex list" where
  "crawl_patterns =
    [seqs [Lit ''crawl'', ws1, Opt (Seq (Lit ''the'') ws1), alts [Lit ''website'', Lit ''site'']],
     seqs [Lit ''get'', ws1, Lit ''multiple'', ws1, Lit ''pages''],
     seqs [Lit ''crawl'', ws1, digits, ws1, Lit ''pages''],
     seqs [Lit ''crawl'', anything, Lit ''limit'', anything, digits],
     seqs [Lit ''spider'', ws1, Opt (Seq (Lit ''the'') ws1), Lit ''website'']]"

definition search_patterns :: "regex list" where
  "search_patterns =
    [seqs [Lit ''search'', ws1, Opt (Seq (Lit ''for'') ws1),
           alts [plural ''website'', Lit ''web'', Lit ''internet'']],
     seqs [Lit ''find'', ws1, alts [plural ''website'', plural ''page''], ws1,
           alts [Lit ''about'', Lit ''with'', Lit ''containing'']],
     seqs [Lit ''search'', ws1, Opt (Seq (Lit ''the'') ws1), alts [Lit ''web'', Lit ''internet''],
           ws1, Lit ''for''],
     seqs [Lit ''web'', ws1, Lit ''search'']]"

definition map_patterns :: "regex list" where
  "map_patterns =
    [seqs [alts [Lit ''map'', Lit ''find'', Lit ''get'', Lit ''list''], ws1,
           Opt (Seq (Lit ''all'') ws1), Lit ''links''],
     seqs [Lit ''discover'', ws1, Lit ''links''],
     seqs [Lit ''find'', ws1, Opt (Seq (Lit ''all'') ws1), alts [plural ''url'', Lit ''links''],
           ws1, alts [Lit ''on'', Lit ''from'']],
     seqs [Lit ''map'', ws1, Opt (Seq (Lit ''the'') ws1), alts [Lit ''website'', Lit ''site''],
           ws1, Lit ''structure'']]"

definition extract_patterns :: "regex list" where
  "extract_patterns =
    [seqs [Lit ''extract'', ws1, Opt (Seq (Lit ''structured'') ws1),
           alts [Lit ''data'', Lit ''content'', Lit ''information'']],
     seqs [Lit ''get'', ws1, Lit ''specific'', ws1, alts [Lit ''data'', Lit ''information'']],
     seqs [Lit ''parse'', ws1, alts [Lit ''data'', Lit ''content''], ws1, Lit ''from''],
     seqs [Lit ''extract'', anything, Lit ''using'', anything,
           alts [Lit ''schema'', Lit ''structure'', Lit ''format'']]]"

definition deep_patterns :: "regex list" where
  "deep_patterns =
    [seqs [alts [Lit ''deep'', Lit ''thorough'', Lit ''comprehensive''], ws1,
           alts [Lit ''analysis'', Lit ''research'']],
     seqs [Lit ''research'', ws1, alts [Lit ''about'', Lit ''on'']],
     seqs [Lit ''analyze'', ws1, alts [Lit ''deeply'', Lit ''thoroughly'']],
     seqs [Lit ''in-depth'', ws1, alts [Lit ''analysis'', Lit ''research'', Lit ''study'']]]"

text \<open>\<open>self.tool_patterns\<close> as \<open>__init__\<close> builds it, in the order the dictionary is written.\<close>

definition catalog :: "(string \<times> regex list) list" where
  "catalog =
    [(''scrape_website'', scrape_patterns),
     (''crawl_website'', crawl_patterns),
     (''search_website'', search_patterns),
     (''map_links'', map_patterns),
     (''extract_content'', extract_patterns),
     (''deep_analysis'', deep_patterns)]"

definition FirecrawlAgent :: "tool list \<Rightarrow> (string \<Rightarrow> pyexc + string) \<Rightarrow> agent" where
  "FirecrawlAgent ts llm = \<lparr>tools = ts, agent_run = llm, tool_patterns = catalog\<rparr>"

subsection \<open>identify_tool\<close>

text \<open>\<open>re.search(pattern, user_input_lower)\<close> as a condition\<close>

definition matches :: "regex \<Rightarrow> string \<Rightarrow> bool" where
  "matches r s = (re_search False r s \<noteq> None)"

text \<open>The inner loop over one tool's patterns: does it reach its \<open>return\<close>?\<close>

fun any_pattern :: "regex list \<Rightarrow> string \<Rightarrow> bool" where
  "any_pattern [] s = False"
| "any_pattern (p # ps) s = (if matches p s then True else any_pattern ps s)"

text \<open>The outer loop over \<open>self.tool_patterns.items()\<close>.\<close>

fun scan_catalog :: "(string \<times> regex list) list \<Rightarrow> string \<Rightarrow> string option" where
  "scan_catalog [] s = None"
| "scan_catalog ((tool_name, patterns) # items) s =
     (if any_pattern patterns s then Some tool_name else scan_catalog items s)"

definition identify_tool :: "agent \<Rightarrow> string \<Rightarrow> string option" where
  "identify_tool self user_input =
     (let user_input_lower = lower user_input in
      case scan_catalog (tool_patterns self) user_input_lower of
        Some tool_name \<Rightarrow> Some tool_name
      | None \<Rightarrow>
          if any_in [''http'', ''www'', ''.com'', ''.org'', ''.net''] user_input_lower
          then (if any_in [''crawl'', ''multiple'', ''pages'', ''limit''] user_input_lower
                then Some ''crawl_website''
                else if any_in [''links'', ''map'', ''discover''] user_input_lower
                then Some ''map_links''
                else Some ''scrape_website'')
          else if any_in [''search'', ''find''] user_input_lower
          then Some ''search_website''
          else None)"

subsection \<open>extract_parameters\<close>

text \<open>
  The class \<open>[^\s<>"{}|\\^`\[\]]\<close> of the URL pattern (the excluded characters by
  code point) and the class \<open>[^,.\n]\<close>.
\<close>

definition url_char :: "char \<Rightarrow> bool" where
  "url_char c = (\<not> is_space c \<and>
     (of_char c :: nat) \<notin> set [60, 62, 34, 123, 125, 124, 92, 94, 96, 91, 93])"

definition term_char :: "char \<Rightarrow> bool" where
  "term_char c = (c \<notin> set [CHR '','', CHR ''.'', CHR 0x0A])"

definition url_pattern :: regex where
  "url_pattern = seqs [Lit ''http'', Opt (Lit ''s''), Lit ''://'', Plus url_char]"

definition limit_re :: regex where
  "limit_re = seqs [alts [Lit ''limit'', Lit ''max'', Lit ''maximum'', Lit ''up to''], ws0,
                    Group digits]"

definition number_re :: regex where
  "number_re = seqs [WordB, Group digits, ws0,
                     alts [plural ''page'', plural ''link'', plural ''result'']]"

definition about_re :: regex where
  "about_re = seqs [Lit ''about'', ws1, Group (Plus term_char)]"

definition depth_re :: regex where
  "depth_re = seqs [alts [Lit ''depth'', plural ''level''], ws0, Group digits]"

definition time_re :: regex where
  "time_re = seqs [alts [Lit ''time'', Lit ''timeout'', Lit ''limit''], ws0, Group digits, ws0,
                   alts [plural ''second'', plural ''minute'']]"

text \<open>\<open>rf'\b{phrase}\b'\<close>\<close>

definition phrase_re :: "string \<Rightarrow> regex" where
  "phrase_re phrase = seqs [WordB, Lit phrase, WordB]"

text \<open>\<open>if urls: params['url'] = urls[0]\<close>\<close>

definition set_url :: "string list \<Rightarrow> params \<Rightarrow> params" where
  "set_url urls params =
     (case urls of [] \<Rightarrow> params | u # _ \<Rightarrow> AList.update ''url'' (VStr u) params)"

text \<open>\<open>params[key] = int(m.group(1))\<close>\<close>

definition set_int :: "string \<Rightarrow> rmatch \<Rightarrow> params \<Rightarrow> pyexc + params" where
  "set_int key m params =
     (case py_int (group1 m) of
        Inl e \<Rightarrow> Inl e
      | Inr n \<Rightarrow> Inr (AList.update key (VInt n) params))"

text \<open>The branch \<open>tool_name == 'scrape_website'\<close>.\<close>

definition extract_scrape :: "string \<Rightarrow> string list \<Rightarrow> params" where
  "extract_scrape user_input_lower urls =
     (let params = set_url urls [];
          params =
            (if contains ''html'' user_input_lower
             then AList.update ''formats'' (VList [''html'']) params
             else if contains ''json'' user_input_lower
             then AList.update ''formats'' (VList [''json'']) params
             else if contains ''markdown'' user_input_lower \<or> contains ''md'' user_input_lower
             then AList.update ''formats'' (VList [''markdown'']) params
             else params)
      in if any_in [''main content'', ''only content'', ''no navigation''] user_input_lower
         then AList.update ''onlyMainContent'' (VBool True) params
         else params)"

text \<open>The branch \<open>tool_name == 'crawl_website'\<close>.\<close>

definition extract_crawl :: "string \<Rightarrow> string list \<Rightarrow> pyexc + params" where
  "extract_crawl user_input_lower urls =
     (let params = set_url urls []
      in case re_search False limit_re user_input_lower of
           Some limit_match \<Rightarrow> set_int ''limit'' limit_match params
         | None \<Rightarrow>
             (case re_search False number_re user_input_lower of
                Some number_match \<Rightarrow> set_int ''limit'' number_match params
              | None \<Rightarrow> Inr (AList.update ''limit'' (VInt 10) params)))"

text \<open>The branch \<open>tool_name == 'search_website'\<close>.\<close>

definition strip_phrases :: "string \<Rightarrow> string" where
  "strip_phrases user_input =
     foldl (\<lambda>query phrase. re_sub True (phrase_re phrase) [] query) user_input
       [''search for'', ''find'', ''look for'', ''search'']"

definition extract_search :: "string \<Rightarrow> string \<Rightarrow> pyexc + params" where
  "extract_search user_input user_input_lower =
     (let query = strip_phrases user_input;
          params = AList.update ''query'' (VStr (strip query)) []
      in case re_search False limit_re user_input_lower of
           Some limit_match \<Rightarrow> set_int ''limit'' limit_match params
         | None \<Rightarrow> Inr (AList.update ''limit'' (VInt 10) params))"

text \<open>
  The branch \<open>tool_name == 'map_links'\<close>. \<open>about_match.group(1).strip()\<close> raises
  AttributeError on a group that is None.
\<close>

definition about_terms :: "string \<Rightarrow> pyexc + string list" where
  "about_terms user_input_lower =
     (if contains ''about'' user_input_lower
      then (case re_search False about_re user_input_lower of
              Some about_match \<Rightarrow>
                (case group1 about_match of
                   None \<Rightarrow> Inl AttributeError
                 | Some g \<Rightarrow> Inr [strip g])
            | None \<Rightarrow> Inr [])
      else Inr [])"

definition extract_map :: "string \<Rightarrow> string list \<Rightarrow> pyexc + params" where
  "extract_map user_input_lower urls =
     (let params = set_url urls []
      in case about_terms user_input_lower of
           Inl e \<Rightarrow> Inl e
         | Inr search_terms \<Rightarrow>
             (let params = AList.update ''search''
                    (VStr (if search_terms \<noteq> [] then join '' '' search_terms else [])) params
              in case re_search False limit_re user_input_lower of
                   Some limit_match \<Rightarrow> set_int ''limit'' limit_match params
                 | None \<Rightarrow> Inr (AList.update ''limit'' (VInt 20) params)))"

text \<open>The branch \<open>tool_name == 'extract_content'\<close>: the loop stops at its \<open>break\<close>.\<close>

fun prompt_loop :: "string list \<Rightarrow> string \<Rightarrow> string \<Rightarrow> params \<Rightarrow> params" where
  "prompt_loop [] user_input user_input_lower params = params"
| "prompt_loop (indicator # indicators) user_input user_input_lower params =
     (if contains indicator user_input_lower
      then AList.update ''prompt''
             (VStr (slice_from user_input (py_find user_input_lower indicator))) params
      else prompt_loop indicators user_input user_input_lower params)"

definition extract_extract :: "string \<Rightarrow> string \<Rightarrow> string list \<Rightarrow> params" where
  "extract_extract user_input user_input_lower urls =
     (let params = AList.update ''urls'' (VList (if urls \<noteq> [] then urls else [])) [];
          params = prompt_loop [''extract'', ''get'', ''find'', ''pull out'']
                     user_input user_input_lower params
      in if map_of params ''prompt'' = None
         then AList.update ''prompt'' (VStr user_input) params
         else params)"

text \<open>The branch \<open>tool_name == 'deep_analysis'\<close>.\<close>

fun query_loop :: "string list \<Rightarrow> string \<Rightarrow> string \<Rightarrow> string \<Rightarrow> string" where
  "query_loop [] user_input user_input_lower query = query"
| "query_loop (indicator # indicators) user_input user_input_lower query =
     (if contains indicator user_input_lower
      then strip (slice_from user_input
                    (py_find user_input_lower indicator + int (length indicator)))
      else query_loop indicators user_input user_input_lower query)"

definition extract_deep :: "string \<Rightarrow> string \<Rightarrow> pyexc + params" where
  "extract_deep user_input user_input_lower =
     (let query = query_loop [''research'', ''analyze'', ''analysis of'', ''study'']
                    user_input user_input_lower user_input;
          params = AList.update ''query'' (VStr query) []
      in case (case re_search False depth_re user_input_lower of
                 Some depth_match \<Rightarrow> set_int ''max_depth'' depth_match params
               | None \<Rightarrow> Inr params) of
           Inl e \<Rightarrow> Inl e
         | Inr params \<Rightarrow>
             (case re_search False time_re user_input_lower of
                Some time_match \<Rightarrow>
                  (case py_int (group1 time_match) of
                     Inl e \<Rightarrow> Inl e
                   | Inr seconds \<Rightarrow>
                       Inr (AList.update ''time_limit''
                              (VInt (if contains ''minute'' user_input_lower
                                     then seconds * 60 else seconds)) params))
              | None \<Rightarrow> Inr params))"

definition extract_parameters :: "string \<Rightarrow> string \<Rightarrow> pyexc + params" where
  "extract_parameters user_input tool_name =
     (let user_input_lower = lower user_input;
          urls = re_findall False url_pattern user_input
      in if tool_name = ''scrape_website'' then Inr (extract_scrape user_input_lower urls)
         else if tool_name = ''crawl_website'' then extract_crawl user_input_lower urls
         else if tool_name = ''search_website'' then extract_search user_input user_input_lower
         else if tool_name = ''map_links'' then extract_map user_input_lower urls
         else if tool_name = ''extract_content''
         then Inr (extract_extract user_input user_input_lower urls)
         else if tool_name = ''deep_analysis'' then extract_deep user_input user_input_lower
         else Inr [])"

subsection \<open>_validate_parameters\<close>

definition required_params :: "(string \<times> string list) list" where
  "required_params =
    [(''scrape_website'', [''url'']),
     (''crawl_website'', [''url'', ''limit'']),
     (''search_website'', [''query'', ''limit'']),
     (''map_links'', [''url'', ''limit'', ''search'']),
     (''extract_content'', [''urls'', ''prompt'']),
     (''deep_analysis'', [''query''])]"

text \<open>The loop \<open>for param in required_params[tool_name]\<close>.\<close>

fun check_required :: "string list \<Rightarrow> params \<Rightarrow> bool" where
  "check_required [] params = True"
| "check_required (param # rest_params) params =
     (if (case map_of params param of None \<Rightarrow> True | Some v \<Rightarrow> \<not> truthy v)
      then False
      else check_required rest_params params)"

definition validate_parameters :: "string \<Rightarrow> params \<Rightarrow> bool" where
  "validate_parameters tool_name params =
     (case map_of required_params tool_name of
        None \<Rightarrow> False
      | Some required \<Rightarrow> check_required required params)"

subsection \<open>process_request\<close>

text \<open>
  The string that \<open>process_request\<close> returns, by the statement that builds it:
  the \<open>Tool: ... Parameters: ... Result: ...\<close> text around a tool's result, the
  \<open>Tool '...' not found. Available tools: ...\<close> text, what \<open>self.agent.run\<close> answered,
  and \<open>Error processing request: ...\<close>.
\<close>

datatype reply =
    ToolResult string params string
  | ToolNotFound string "string list"
  | AgentAnswer string
  | ErrorReply string

text \<open>\<open>return self.agent.run(user_input)\<close>\<close>

definition fallback :: "agent \<Rightarrow> string \<Rightarrow> pyexc + reply" where
  "fallback self user_input =
     (case agent_run self user_input of
        Inl e \<Rightarrow> Inl e
      | Inr answer \<Rightarrow> Inr (AgentAnswer answer))"

text \<open>The body of the \<open>try\<close> block.\<close>

definition try_body :: "agent \<Rightarrow> string \<Rightarrow> pyexc + reply" where
  "try_body self user_input =
     (case identify_tool self user_input of
        None \<Rightarrow> fallback self user_input
      | Some tool_name \<Rightarrow>
          if tool_name = [] then fallback self user_input
          else
            (case extract_parameters user_input tool_name of
               Inl e \<Rightarrow> Inl e
             | Inr params \<Rightarrow>
                 (case find (\<lambda>t. name t = tool_name) (tools self) of
                    None \<Rightarrow> Inr (ToolNotFound tool_name (map name (tools self)))
                  | Some selected_tool \<Rightarrow>
                      if validate_parameters tool_name params
                      then (case run selected_tool params of
                              Inl e \<Rightarrow> Inl e
                            | Inr result \<Rightarrow> Inr (ToolResult tool_name params result))
                      else fallback self user_input)))"

text \<open>\<open>except Exception as e: return f"Error processing request: {str(e)}"\<close>\<close>

definition process_request :: "agent \<Rightarrow> string \<Rightarrow> pyexc + reply" where
  "process_request self user_input =
     (case try_body self user_input of
        Inl e \<Rightarrow> if is_exception e then Inr (ErrorReply (exc_str e)) else Inl e
      | Inr r \<Rightarrow> Inr r)"

section \<open>The tool functions (src/MCP_Tool/firecrawl_fapi.py)\<close>

text \<open>
  The FirecrawlApp client: each remote operation together with the rendering of its
  response (\<open>model_dump\<close>, \<open>model_dump_json\<close>, \<open>json.dumps\<close>), which the tool functions
  do inside the same \<open>try\<close> block. Either step may raise.
\<close>

record firecrawl_app =
  app_scrape_url :: "string \<Rightarrow> string list option \<Rightarrow> bool option \<Rightarrow> pyexc + string"
  app_crawl_url :: "string \<Rightarrow> int \<Rightarrow> string list option \<Rightarrow> bool option \<Rightarrow> pyexc + string"
  app_search :: "string \<Rightarrow> int \<Rightarrow> string list option \<Rightarrow> bool option \<Rightarrow> pyexc + string"
  app_map_url :: "string \<Rightarrow> int \<Rightarrow> string \<Rightarrow> pyexc + string"
  app_extract :: "string list \<Rightarrow> string option \<Rightarrow> string option \<Rightarrow> pyexc + string"
  app_deep_research :: "string \<Rightarrow> int option \<Rightarrow> int option \<Rightarrow> pyexc + string"

text \<open>
  What a tool function returns: the rendered result, or
  \<open>json.dumps({"error": str(e)}, indent=2)\<close>.
\<close>

datatype payload = Result string | ErrorJson string

definition scrape_website ::
  "firecrawl_app \<Rightarrow> string \<Rightarrow> string list option \<Rightarrow> bool option \<Rightarrow> pyexc + payload" where
  "scrape_website app url formats onlyMainContent =
     (case app_scrape_url app url formats onlyMainContent of
        Inr scrap \<Rightarrow> Inr (Result scrap)
      | Inl e \<Rightarrow> if is_exception e then Inr (ErrorJson (exc_str e)) else Inl e)"

definition crawl_website ::
  "firecrawl_app \<Rightarrow> string \<Rightarrow> int \<Rightarrow> string list option \<Rightarrow> bool option \<Rightarrow> pyexc + payload" where
  "crawl_website app url limit formats onlyMainContent =
     (case app_crawl_url app url limit formats onlyMainContent of
        Inr crawl \<Rightarrow> Inr (Result crawl)
      | Inl e \<Rightarrow> if is_exception e then Inr (ErrorJson (exc_str e)) else Inl e)"

definition search_website ::
  "firecrawl_app \<Rightarrow> string \<Rightarrow> int \<Rightarrow> string list option \<Rightarrow> bool option \<Rightarrow> pyexc + payload" where
  "search_website app query limit formats onlyMainContent =
     (case app_search app query limit formats onlyMainContent of
        Inr search_result \<Rightarrow> Inr (Result search_result)
      | Inl e \<Rightarrow> if is_exception e then Inr (ErrorJson (exc_str e)) else Inl e)"

definition map_links ::
  "firecrawl_app \<Rightarrow> string \<Rightarrow> int \<Rightarrow> string \<Rightarrow> pyexc + payload" where
  "map_links app url limit search_term =
     (case app_map_url app url limit search_term of
        Inr search_result \<Rightarrow> Inr (Result search_result)
      | Inl e \<Rightarrow> if is_exception e then Inr (ErrorJson (exc_str e)) else Inl e)"

definition extract_content ::
  "firecrawl_app \<Rightarrow> string list \<Rightarrow> string option \<Rightarrow> string option \<Rightarrow> pyexc + payload" where
  "extract_content app urls prompt content_schema =
     (case app_extract app urls prompt content_schema of
        Inr extract_result \<Rightarrow> Inr (Result extract_result)
      | Inl e \<Rightarrow> if is_exception e then Inr (ErrorJson (exc_str e)) else Inl e)"

definition deep_analysis ::
  "firecrawl_app \<Rightarrow> string \<Rightarrow> int option \<Rightarrow> int option \<Rightarrow> pyexc + payload" where
  "deep_analysis app query max_depth time_limit =
     (case app_deep_research app query max_depth time_limit of
        Inr research_result \<Rightarrow> Inr (Result research_result)
      | Inl e \<Rightarrow> if is_exception e then Inr (ErrorJson (exc_str e)) else Inl e)"

section \<open>Properties of the string functions, the matcher and the extractor\<close>

declare scan.simps [simp del] findall_from.simps [simp del] sub_from.simps [simp del]

lemma starts_with_iff: "starts_with k s \<longleftrightarrow> (\<exists>v. s = k @ v)"
  by (induction k s rule: starts_with.induct) auto

lemma contains_iff: "contains k s \<longleftrightarrow> (\<exists>u v. s = u @ k @ v)"
proof (induction s)
  case Nil
  then show ?case by auto
next
  case (Cons c cs)
  have "(\<exists>u v. c # cs = u @ k @ v) \<longleftrightarrow> (\<exists>v. c # cs = k @ v) \<or> (\<exists>u v. cs = u @ k @ v)"
  proof
    assume "\<exists>u v. c # cs = u @ k @ v"
    then obtain u v where h: "c # cs = u @ k @ v" by blast
    show "(\<exists>v. c # cs = k @ v) \<or> (\<exists>u v. cs = u @ k @ v)"
    proof (cases u)
      case Nil
      with h show ?thesis by auto
    next
      case (Cons a u')
      with h have "cs = u' @ k @ v" by simp
      then show ?thesis by blast
    qed
  next
    assume "(\<exists>v. c # cs = k @ v) \<or> (\<exists>u v. cs = u @ k @ v)"
    then show "\<exists>u v. c # cs = u @ k @ v"
    proof
      assume "\<exists>v. c # cs = k @ v"
      then obtain v where "c # cs = [] @ k @ v" by auto
      then show ?thesis by blast
    next
      assume "\<exists>u v. cs = u @ k @ v"
      then obtain u v where "c # cs = (c # u) @ k @ v" by auto
      then show ?thesis by blast
    qed
  qed
  with Cons show ?case by (simp add: starts_with_iff del: starts_with.simps)
qed

lemma any_in_iff: "any_in ks s \<longleftrightarrow> (\<exists>k\<in>set ks. \<exists>u v. s = u @ k @ v)"
  by (simp add: any_in_def list_ex_iff contains_iff)

lemma contains_lower: "contains k s \<Longrightarrow> contains (lower k) (lower s)"
  unfolding contains_iff lower_def by (metis map_append)

lemma contains_part: "contains (a @ b) s \<Longrightarrow> contains a s"
  unfolding contains_iff by (metis append.assoc)

lemma any_pattern_iff: "any_pattern ps s \<longleftrightarrow> (\<exists>p\<in>set ps. matches p s)"
  by (induction ps) auto

lemma scan_catalog_find:
  "scan_catalog cat s = map_option fst (find (\<lambda>(tool_name, patterns). \<exists>p\<in>set patterns. matches p s) cat)"
  by (induction cat s rule: scan_catalog.induct) (auto simp: any_pattern_iff)

lemma tool_patterns_FirecrawlAgent: "tool_patterns (FirecrawlAgent ts llm) = catalog"
  by (simp add: FirecrawlAgent_def)

lemma lit_grp: "lit ic ps st = Some st' \<Longrightarrow> grp st' = grp st"
  by (induction ic ps st rule: lit.induct) (auto split: if_splits)

lemma star_cont:
  "star p k st = Some res \<Longrightarrow>
   \<exists>st' n. k st' = Some res \<and> grp st' = grp st \<and> rest st' = drop n (rest st) \<and>
           n \<le> length (rest st) \<and> list_all p (take n (rest st))"
proof (induction p k st rule: star.induct)
  case (1 p k pv g)
  then show ?case by (intro exI[of _ "MS pv [] g"] exI[of _ 0]) simp
next
  case (2 p k pv c cs g)
  show ?case
  proof (cases "p c \<and> star p k (MS (Some c) cs g) \<noteq> None")
    case True
    then have s: "star p k (MS (Some c) cs g) = Some res" using 2(2) by (auto split: option.splits)
    from 2(1)[OF _ s] True obtain st' n where
      h: "k st' = Some res" "grp st' = g" "rest st' = drop n cs" "n \<le> length cs" "list_all p (take n cs)"
      by auto
    show ?thesis
      using h True by (intro exI[of _ st'] exI[of _ "Suc n"]) simp
  next
    case False
    then have "k (MS pv (c # cs) g) = Some res" using 2(2) by (auto split: if_splits option.splits)
    then show ?thesis by (intro exI[of _ "MS pv (c # cs) g"] exI[of _ 0]) simp
  qed
qed

lemma mtch_grp:
  "groupless r \<Longrightarrow> mtch ic r k st = Some res \<Longrightarrow> \<exists>st'. k st' = Some res \<and> grp st' = grp st"
proof (induction r arbitrary: k st)
  case (Lit s)
  then show ?case by (auto split: option.splits dest: lit_grp)
next
  case (Star p)
  then show ?case using star_cont[of p k st res] by auto
next
  case (Plus p)
  then show ?case
    by (cases st) (auto split: list.splits if_splits dest!: star_cont)
next
  case (Opt r)
  then show ?case by (auto split: option.splits)
next
  case (Alt r1 r2)
  then show ?case by (auto split: option.splits)
next
  case (Seq r1 r2)
  from Seq.prems have g: "groupless r1" "groupless r2" and m: "mtch ic r1 (mtch ic r2 k) st = Some res"
    by auto
  from Seq.IH(1)[OF g(1) m] obtain st1 where "mtch ic r2 k st1 = Some res" "grp st1 = grp st" by auto
  with Seq.IH(2)[OF g(2)] show ?case by fastforce
next
  case (Group r)
  then show ?case by simp
next
  case WordB
  then show ?case by (auto split: if_splits)
qed

lemma mtch_Seq: "mtch ic (Seq r1 r2) k = mtch ic r1 (mtch ic r2 k)"
  by (rule ext) simp

lemma group_plus:
  assumes "mtch ic (Group (Plus p)) k st = Some res"
  shows "\<exists>st' ds. k st' = Some res \<and> grp st' = Some ds \<and> ds \<noteq> [] \<and> list_all p ds"
proof -
  let ?k = "\<lambda>st'. k (MS (prev st') (rest st')
                (Some (take (length (rest st) - length (rest st')) (rest st))))"
  from assms obtain c cs where r: "rest st = c # cs" and pc: "p c"
    and s: "star p ?k (MS (Some c) cs (grp st)) = Some res"
    by (auto split: list.splits if_splits)
  from star_cont[OF s] obtain st1 n where
    h: "?k st1 = Some res" "rest st1 = drop n cs" "n \<le> length cs" "list_all p (take n cs)"
    by auto
  have "take (length (rest st) - length (rest st1)) (rest st) = c # take n cs"
    using h(2,3) r by (simp add: Suc_diff_le)
  then show ?thesis
    using h pc by (intro exI[of _ "MS (prev st1) (rest st1) (Some (c # take n cs))"] exI[of _ "c # take n cs"]) simp
qed

lemma scan_mtch:
  "scan ic r i pv s = Some m \<Longrightarrow>
   \<exists>pv' s' st. mtch ic r Some (MS pv' s' None) = Some st \<and> group1 m = grp st"
proof (induction s arbitrary: i pv)
  case Nil
  then obtain st where "mtch ic r Some (MS pv [] None) = Some st" "group1 m = grp st"
    by (subst (asm) scan.simps) (auto split: option.splits)
  then show ?case by blast
next
  case (Cons c cs)
  show ?case
  proof (cases "mtch ic r Some (MS pv (c # cs) None)")
    case None
    then have "scan ic r (Suc i) (Some c) cs = Some m"
      using Cons.prems by (subst (asm) scan.simps) simp
    then show ?thesis by (rule Cons.IH)
  next
    case (Some st)
    then have "group1 m = grp st"
      using Cons.prems by (subst (asm) scan.simps) auto
    with Some show ?thesis by blast
  qed
qed

lemma capture_last:
  "groupless a \<Longrightarrow> groupless b \<Longrightarrow>
   mtch ic (Seq a (Seq b (Group (Plus p)))) Some st = Some res \<Longrightarrow> captured p (grp res)"
proof -
  assume a: "groupless a" and b: "groupless b"
    and m: "mtch ic (Seq a (Seq b (Group (Plus p)))) Some st = Some res"
  from m have "mtch ic a (mtch ic b (mtch ic (Group (Plus p)) Some)) st = Some res"
    by (simp only: mtch_Seq)
  from mtch_grp[OF a this] obtain st1 where "mtch ic b (mtch ic (Group (Plus p)) Some) st1 = Some res" by auto
  from mtch_grp[OF b this] obtain st2 where "mtch ic (Group (Plus p)) Some st2 = Some res" by auto
  from group_plus[OF this] show ?thesis by (auto simp: captured_def)
qed

lemma capture_mid:
  "groupless a \<Longrightarrow> groupless b \<Longrightarrow> groupless c \<Longrightarrow>
   mtch ic (Seq a (Seq b (Seq (Group (Plus p)) c))) Some st = Some res \<Longrightarrow> captured p (grp res)"
proof -
  assume a: "groupless a" and b: "groupless b" and c: "groupless c"
    and m: "mtch ic (Seq a (Seq b (Seq (Group (Plus p)) c))) Some st = Some res"
  from m have "mtch ic a (mtch ic b (mtch ic (Group (Plus p)) (mtch ic c Some))) st = Some res"
    by (simp only: mtch_Seq)
  from mtch_grp[OF a this] obtain st1 where "mtch ic b (mtch ic (Group (Plus p)) (mtch ic c Some)) st1 = Some res" by auto
  from mtch_grp[OF b this] obtain st2 where "mtch ic (Group (Plus p)) (mtch ic c Some) st2 = Some res" by auto
  from group_plus[OF this] obtain st3 ds where
    h: "mtch ic c Some st3 = Some res" "grp st3 = Some ds" "ds \<noteq> []" "list_all p ds" by auto
  from mtch_grp[OF c h(1)] h show ?thesis by (auto simp: captured_def)
qed

lemma capture_second:
  "groupless a \<Longrightarrow> groupless c \<Longrightarrow>
   mtch ic (Seq a (Seq (Group (Plus p)) c)) Some st = Some res \<Longrightarrow> captured p (grp res)"
proof -
  assume a: "groupless a" and c: "groupless c"
    and m: "mtch ic (Seq a (Seq (Group (Plus p)) c)) Some st = Some res"
  from m have "mtch ic a (mtch ic (Group (Plus p)) (mtch ic c Some)) st = Some res"
    by (simp only: mtch_Seq)
  from mtch_grp[OF a this] obtain st2 where "mtch ic (Group (Plus p)) (mtch ic c Some) st2 = Some res" by auto
  from group_plus[OF this] obtain st3 ds where
    h: "mtch ic c Some st3 = Some res" "grp st3 = Some ds" "ds \<noteq> []" "list_all p ds" by auto
  from mtch_grp[OF c h(1)] h show ?thesis by (auto simp: captured_def)
qed

lemma limit_re_group: "re_search False limit_re s = Some m \<Longrightarrow> captured is_digit (group1 m)"
proof -
  assume "re_search False limit_re s = Some m"
  then obtain pv s' st where m: "mtch False limit_re Some (MS pv s' None) = Some st"
    and g: "group1 m = grp st"
    unfolding re_search_def by (blast dest: scan_mtch)
  from m have "captured is_digit (grp st)"
    unfolding limit_re_def ws0_def digits_def seqs.simps
    by (rule capture_last[rotated 2]) simp_all
  with g show ?thesis by simp
qed

lemma number_re_group: "re_search False number_re s = Some m \<Longrightarrow> captured is_digit (group1 m)"
proof -
  assume "re_search False number_re s = Some m"
  then obtain pv s' st where m: "mtch False number_re Some (MS pv s' None) = Some st"
    and g: "group1 m = grp st"
    unfolding re_search_def by (blast dest: scan_mtch)
  from m have "captured is_digit (grp st)"
    unfolding number_re_def ws0_def digits_def seqs.simps
    by (rule capture_second[rotated 2]) (simp_all add: plural_def)
  with g show ?thesis by simp
qed

lemma time_re_group: "re_search False time_re s = Some m \<Longrightarrow> captured is_digit (group1 m)"
proof -
  assume "re_search False time_re s = Some m"
  then obtain pv s' st where m: "mtch False time_re Some (MS pv s' None) = Some st"
    and g: "group1 m = grp st"
    unfolding re_search_def by (blast dest: scan_mtch)
  from m have "captured is_digit (grp st)"
    unfolding time_re_def ws0_def digits_def seqs.simps
    by (rule capture_mid[rotated 3]) (simp_all add: plural_def)
  with g show ?thesis by simp
qed

lemma depth_re_group: "re_search False depth_re s = Some m \<Longrightarrow> captured is_digit (group1 m)"
proof -
  assume "re_search False depth_re s = Some m"
  then obtain pv s' st where m: "mtch False depth_re Some (MS pv s' None) = Some st"
    and g: "group1 m = grp st"
    unfolding re_search_def by (blast dest: scan_mtch)
  from m have "captured is_digit (grp st)"
    unfolding depth_re_def ws0_def digits_def seqs.simps
    by (rule capture_last[rotated 2]) (simp_all add: plural_def)
  with g show ?thesis by simp
qed

lemma about_re_group: "re_search False about_re s = Some m \<Longrightarrow> captured term_char (group1 m)"
proof -
  assume "re_search False about_re s = Some m"
  then obtain pv s' st where m: "mtch False about_re Some (MS pv s' None) = Some st"
    and g: "group1 m = grp st"
    unfolding re_search_def by (blast dest: scan_mtch)
  from m have "captured term_char (grp st)"
    unfolding about_re_def ws1_def seqs.simps
    by (rule capture_last[rotated 2]) simp_all
  with g show ?thesis by simp
qed

lemma check_required_iff:
  "check_required required params \<longleftrightarrow>
     (\<forall>k\<in>set required. \<exists>v. map_of params k = Some v \<and> truthy v)"
  by (induction required) (auto split: option.splits)

lemma truthy_iff: "truthy v \<longleftrightarrow> v \<notin> {VStr [], VList [], VInt 0, VBool False}"
  by (cases v) auto

lemma map_of_set_url_other: "k \<noteq> ''url'' \<Longrightarrow> map_of (set_url urls []) k = None"
  by (cases urls) (simp_all add: set_url_def)

lemma fallback_raises: "fallback self user_input = Inl e \<Longrightarrow> agent_run self user_input = Inl e"
  by (simp add: fallback_def split: sum.splits)

lemma py_int_raises: "py_int g = Inl e \<Longrightarrow> is_exception e"
  by (auto simp: py_int_def split: option.splits if_splits)

lemma py_int_digits:
  assumes "captured is_digit g"
  shows "(\<exists>ds. g = Some ds \<and> int_max_str_digits < length ds \<and> py_int g = Inl ValueError) \<or>
         (\<exists>ds n. g = Some ds \<and> length ds \<le> int_max_str_digits \<and> py_int g = Inr n)"
proof -
  from assms obtain ds where d: "g = Some ds" "ds \<noteq> []" "list_all is_digit ds"
    by (auto simp: captured_def)
  show ?thesis
  proof (cases "length ds \<le> int_max_str_digits")
    case True
    with d show ?thesis by (simp add: py_int_def)
  next
    case False
    with d show ?thesis by (simp add: py_int_def)
  qed
qed

lemma set_int_raises: "set_int key m params = Inl e \<Longrightarrow> is_exception e"
  by (auto simp: set_int_def split: sum.splits dest: py_int_raises)

lemma set_int_digits:
  assumes "captured is_digit (group1 m)"
  shows "(\<exists>ds. group1 m = Some ds \<and> int_max_str_digits < length ds \<and>
               set_int key m params = Inl ValueError) \<or>
         (\<exists>ds n. group1 m = Some ds \<and> length ds \<le> int_max_str_digits \<and>
                 set_int key m params = Inr (AList.update key (VInt n) params))"
  using py_int_digits [OF assms] by (auto simp: set_int_def)

text \<open>The two outcomes of \<open>int(limit_match.group(1)) if limit_match else d\<close>.\<close>

lemma limit_raises:
  assumes "over_long limit_re s"
  shows "(case re_search False limit_re s of
            Some limit_match \<Rightarrow> set_int ''limit'' limit_match params
          | None \<Rightarrow> Inr (AList.update ''limit'' (VInt d) params)) = Inl ValueError"
proof (cases "re_search False limit_re s")
  case None
  with assms show ?thesis by (simp add: over_long_def)
next
  case (Some m)
  from set_int_digits [OF limit_re_group [OF Some], of "''limit''" params] assms Some
  show ?thesis by (auto simp: over_long_def)
qed

lemma limit_returns:
  assumes "\<not> over_long limit_re s"
  shows "\<exists>n. (case re_search False limit_re s of
                 Some limit_match \<Rightarrow> set_int ''limit'' limit_match params
               | None \<Rightarrow> Inr (AList.update ''limit'' (VInt d) params)) =
              Inr (AList.update ''limit'' (VInt n) params)"
proof (cases "re_search False limit_re s")
  case None
  then show ?thesis by (intro exI [of _ d]) simp
next
  case (Some m)
  from set_int_digits [OF limit_re_group [OF Some], of "''limit''" params] assms Some
  show ?thesis by (auto simp: over_long_def)
qed

text \<open>What extraction raises is an Exception.\<close>

lemma about_terms_ok: "\<exists>search_terms. about_terms s = Inr search_terms"
proof (cases "re_search False about_re s")
  case None
  then show ?thesis by (simp add: about_terms_def)
next
  case (Some m)
  from about_re_group [OF Some] obtain g where "group1 m = Some g"
    by (auto simp: captured_def)
  with Some show ?thesis by (simp add: about_terms_def)
qed

lemma extract_crawl_raises: "extract_crawl s urls = Inl e \<Longrightarrow> is_exception e"
  by (auto simp: extract_crawl_def Let_def split: option.splits dest: set_int_raises)

lemma extract_search_raises: "extract_search user_input s = Inl e \<Longrightarrow> is_exception e"
  by (auto simp: extract_search_def Let_def split: option.splits dest: set_int_raises)

lemma extract_map_raises: "extract_map s urls = Inl e \<Longrightarrow> is_exception e"
proof -
  assume a: "extract_map s urls = Inl e"
  from about_terms_ok obtain search_terms where t: "about_terms s = Inr search_terms" by blast
  from a show ?thesis
    by (auto simp: extract_map_def Let_def t split: option.splits dest: set_int_raises)
qed

lemma extract_deep_raises: "extract_deep user_input s = Inl e \<Longrightarrow> is_exception e"
proof -
  assume a: "extract_deep user_input s = Inl e"
  let ?p0 = "AList.update ''query''
               (VStr (query_loop [''research'', ''analyze'', ''analysis of'', ''study'']
                        user_input s user_input)) []"
  let ?d = "case re_search False depth_re s of
              None \<Rightarrow> Inr ?p0
            | Some depth_match \<Rightarrow> set_int ''max_depth'' depth_match ?p0"
  note b = a [unfolded extract_deep_def Let_def]
  show ?thesis
  proof (cases ?d)
    case (Inl e')
    then have "is_exception e'"
      by (auto split: option.splits dest: set_int_raises)
    moreover from b have "e' = e" unfolding Inl by (simp only: sum.case sum.inject)
    ultimately show ?thesis by simp
  next
    case (Inr p1)
    from b have "(case re_search False time_re s of
                    None \<Rightarrow> Inr p1
                  | Some time_match \<Rightarrow>
                      (case py_int (group1 time_match) of
                         Inl e \<Rightarrow> Inl e
                       | Inr seconds \<Rightarrow>
                           Inr (AList.update ''time_limit''
                                  (VInt (if contains ''minute'' s then seconds * 60 else seconds))
                                  p1))) = Inl e"
      unfolding Inr by (simp only: sum.case)
    then show ?thesis
      by (auto split: option.splits sum.splits dest: py_int_raises)
  qed
qed

lemma extract_parameters_raises:
  "extract_parameters user_input tool_name = Inl e \<Longrightarrow> is_exception e"
  by (auto simp: extract_parameters_def Let_def split: if_splits
        dest: extract_crawl_raises extract_search_raises extract_map_raises extract_deep_raises)

lemma try_body_raises:
  assumes t: "try_body self user_input = Inl e"
  shows "is_exception e \<or> (\<exists>x. agent_run self x = Inl e) \<or>
         (\<exists>t\<in>set (tools self). \<exists>p. run t p = Inl e)"
proof (cases "identify_tool self user_input")
  case None
  with t have "fallback self user_input = Inl e" by (simp add: try_body_def)
  then show ?thesis by (blast dest: fallback_raises)
next
  case (Some tool_name)
  show ?thesis
  proof (cases "tool_name = []")
    case True
    with t Some have "fallback self user_input = Inl e" by (simp add: try_body_def)
    then show ?thesis by (blast dest: fallback_raises)
  next
    case False
    show ?thesis
    proof (cases "extract_parameters user_input tool_name")
      case (Inl e')
      with t Some False have "e = e'" by (simp add: try_body_def)
      with Inl show ?thesis by (blast dest: extract_parameters_raises)
    next
      case (Inr params) note x = this
      show ?thesis
      proof (cases "find (\<lambda>t. name t = tool_name) (tools self)")
        case None
        with t Some False x show ?thesis by (simp add: try_body_def)
      next
        case (Some selected_tool) note f = this
        then have m: "selected_tool \<in> set (tools self)"
          by (auto simp: find_Some_iff)
        show ?thesis
        proof (cases "validate_parameters tool_name params")
          case True
          with t \<open>identify_tool self user_input = Some tool_name\<close> False x f
          have "run selected_tool params = Inl e"
            by (simp add: try_body_def split: sum.splits)
          with m show ?thesis by blast
        next
          case v: False
          with t \<open>identify_tool self user_input = Some tool_name\<close> False x f
          have "fallback self user_input = Inl e" by (simp add: try_body_def)
          then show ?thesis by (blast dest: fallback_raises)
        qed
      qed
    qed
  qed
qed

text \<open>A limit of more than 4300 digits exists as a text: the raising branch is real.\<close>

lemma star_all:
  assumes "\<And>st. k st \<noteq> None" and "list_all p s"
  shows "star p k (MS pv s g) = k (MS (case s of [] \<Rightarrow> pv | _ \<Rightarrow> Some (last s)) [] g)"
  using assms(2)
proof (induction s arbitrary: pv)
  case Nil
  then show ?case by simp
next
  case (Cons c cs)
  then have pc: "p c" and "list_all p cs" by simp_all
  from Cons.IH [OF this(2), of "Some c"]
  have i: "star p k (MS (Some c) cs g) =
             k (MS (case cs of [] \<Rightarrow> Some c | _ \<Rightarrow> Some (last cs)) [] g)" .
  from assms(1) [of "MS (case cs of [] \<Rightarrow> Some c | _ \<Rightarrow> Some (last cs)) [] g"]
  obtain r where r: "k (MS (case cs of [] \<Rightarrow> Some c | _ \<Rightarrow> Some (last cs)) [] g) = Some r"
    by blast
  have "(case c # cs of [] \<Rightarrow> pv | _ \<Rightarrow> Some (last (c # cs))) =
          (case cs of [] \<Rightarrow> Some c | _ \<Rightarrow> Some (last cs))"
    by (cases cs) simp_all
  with pc i r show ?case by simp
qed

lemma nines_captured:
  "mtch False (Group (Plus is_digit)) Some (MS pv (replicate (Suc n) (CHR ''9'')) None) =
     Some (MS (Some (CHR ''9'')) [] (Some (replicate (Suc n) (CHR ''9''))))"
proof -
  let ?k = "\<lambda>st'. Some (MS (prev st') (rest st')
              (Some (take (Suc n - length (rest st')) (CHR ''9'' # replicate n (CHR ''9'')))))"
  have d: "is_digit (CHR ''9'')" by (simp add: is_digit_def)
  then have a: "list_all is_digit (replicate n (CHR ''9''))"
    by (simp add: list_all_iff)
  have l: "(case replicate n (CHR ''9'') of [] \<Rightarrow> Some (CHR ''9'')
            | _ \<Rightarrow> Some (last (replicate n (CHR ''9'')))) = Some (CHR ''9'')"
    by (cases n) simp_all
  have "star is_digit ?k (MS (Some (CHR ''9'')) (replicate n (CHR ''9'')) None) =
          ?k (MS (Some (CHR ''9'')) [] None)"
    using star_all [of ?k is_digit "replicate n (CHR ''9'')" "Some (CHR ''9'')" None, OF _ a]
    by (simp only: l) simp
  with d show ?thesis by simp
qed

lemma over_long_limit:
  assumes "int_max_str_digits \<le> n"
  shows "over_long limit_re (''limit '' @ replicate (Suc n) (CHR ''9''))"
proof -
  have s: "is_space (CHR '' '')" "\<not> is_space (CHR ''9'')"
    by (simp_all add: is_space_def)
  have "mtch False limit_re Some (MS None (''limit '' @ replicate (Suc n) (CHR ''9'')) None) =
          Some (MS (Some (CHR ''9'')) [] (Some (replicate (Suc n) (CHR ''9''))))"
    unfolding limit_re_def ws0_def digits_def
    using s nines_captured [of "Some (CHR '' '')" n]
    by (simp add: same_char_def)
  then have "re_search False limit_re (''limit '' @ replicate (Suc n) (CHR ''9'')) =
               Some (RMatch 0 (6 + Suc n) (Some (replicate (Suc n) (CHR ''9''))))"
    unfolding re_search_def by (subst scan.simps) simp
  with assms show ?thesis by (simp add: over_long_def)
qed

lemma lower_limit_nines:
  "lower (''limit '' @ replicate n (CHR ''9'')) = ''limit '' @ replicate n (CHR ''9'')"
proof -
  have "lower ''limit '' = ''limit ''" by code_simp
  moreover have "lower_char (CHR ''9'') = CHR ''9''" by code_simp
  moreover have "lower (''limit '' @ replicate n (CHR ''9'')) =
                   lower ''limit '' @ replicate n (lower_char (CHR ''9''))"
    unfolding lower_def by (simp only: map_append map_replicate)
  ultimately show ?thesis by simp
qed

lemma over_long_limit_raises:
  assumes "int_max_str_digits \<le> n"
  shows "extract_parameters (''limit '' @ replicate (Suc n) (CHR ''9'')) ''search_website'' =
           Inl ValueError"
  unfolding extract_parameters_def extract_search_def Let_def lower_limit_nines
  using limit_raises [OF over_long_limit [OF assms]] by simp

section \<open>Claims\<close>

text \<open>
  C1. For every text, identify_tool returns the tool of the first catalog entry, in
  the order the catalog is written, one of whose patterns is found in the lower-cased
  text. When no pattern is found anywhere, the fallback decides in this order: a
  URL-like substring (http, www, .com, .org, .net) with a crawl keyword gives
  crawl_website; a URL-like substring with a link keyword gives map_links; a URL-like
  substring alone gives scrape_website; a search keyword gives search_website;
  otherwise the result is None.
\<close>

theorem identify_tool_catalog_then_fallback:
  "identify_tool (FirecrawlAgent ts llm) text =
     (case find (\<lambda>(tool_name, patterns). \<exists>p\<in>set patterns. re_search False p (lower text) \<noteq> None)
             catalog of
        Some (tool_name, patterns) \<Rightarrow> Some tool_name
      | None \<Rightarrow>
          (let has = (\<lambda>keywords. \<exists>k\<in>set keywords. \<exists>u v. lower text = u @ k @ v);
               url_like = has [''http'', ''www'', ''.com'', ''.org'', ''.net'']
           in if url_like \<and> has [''crawl'', ''multiple'', ''pages'', ''limit'']
              then Some ''crawl_website''
              else if url_like \<and> has [''links'', ''map'', ''discover'']
              then Some ''map_links''
              else if url_like then Some ''scrape_website''
              else if has [''search'', ''find''] then Some ''search_website''
              else None))"
proof -
  let ?P = "\<lambda>(tool_name, patterns). \<exists>p\<in>set patterns. re_search False p (lower text) \<noteq> None"
  have sc: "scan_catalog catalog (lower text) = map_option fst (find ?P catalog)"
    by (simp only: scan_catalog_find matches_def)
  show ?thesis
  proof (cases "find ?P catalog")
    case None
    then show ?thesis
      unfolding identify_tool_def tool_patterns_FirecrawlAgent Let_def sc any_in_iff
      by simp
  next
    case (Some a)
    then show ?thesis
      unfolding identify_tool_def tool_patterns_FirecrawlAgent Let_def sc
      by (cases a) simp
  qed
qed

theorem identify_tool_catalog_then_fallback_witness:
  "identify_tool (FirecrawlAgent [] Inr) ''find me a good pizza'' = Some ''search_website''"
proof -
  have f: "find (\<lambda>(tool_name, patterns).
                   \<exists>p\<in>set patterns. re_search False p (lower ''find me a good pizza'') \<noteq> None)
             catalog = None"
    by code_simp
  have k1: "\<not> any_in [''http'', ''www'', ''.com'', ''.org'', ''.net''] (lower ''find me a good pizza'')"
    by code_simp
  have k2: "any_in [''search'', ''find''] (lower ''find me a good pizza'')"
    by code_simp
  show ?thesis
    using identify_tool_catalog_then_fallback [of "[]" Inr "''find me a good pizza''"]
    by (simp only: Let_def f option.case k1 [unfolded any_in_iff] k2 [unfolded any_in_iff]
          if_False if_True simp_thms)
qed

text \<open>
  C2 as stated: a required argument whose value is the integer zero counts as present,
  so an argument set with \<open>limit = 0\<close> beside the other required arguments passes.
  The validator tests \<open>not params[param]\<close>, and \<open>not 0\<close> is true.
\<close>

theorem validate_zero_limit_counterexample:
  "map_of [(''url'', VStr ''https://example.com''), (''limit'', VInt 0)] ''url'' =
     Some (VStr ''https://example.com'') \<and>
   map_of [(''url'', VStr ''https://example.com''), (''limit'', VInt 0)] ''limit'' =
     Some (VInt 0) \<and>
   validate_parameters ''crawl_website''
     [(''url'', VStr ''https://example.com''), (''limit'', VInt 0)] = False"
  by code_simp

text \<open>
  C2, amended: for every known operation, the validator accepts an argument set exactly
  when every required argument name has a value and that value is not falsy, the falsy
  values being the empty string, the empty list, the integer zero and False.
\<close>

theorem validate_parameters_rejects_falsy:
  assumes "map_of required_params tool_name = Some required"
  shows "validate_parameters tool_name params \<longleftrightarrow>
           (\<forall>k\<in>set required. \<exists>v. map_of params k = Some v \<and>
                                   v \<notin> {VStr [], VList [], VInt 0, VBool False})"
  using assms by (simp add: validate_parameters_def check_required_iff truthy_iff)

theorem validate_parameters_rejects_falsy_witness:
  "map_of required_params ''search_website'' = Some [''query'', ''limit''] \<and>
   \<not> validate_parameters ''search_website'' [(''query'', VStr ''cats''), (''limit'', VInt 0)] \<and>
   validate_parameters ''search_website'' [(''query'', VStr ''cats''), (''limit'', VInt 10)]"
proof -
  have r: "map_of required_params ''search_website'' = Some [''query'', ''limit'']"
    by code_simp
  show ?thesis
    using validate_parameters_rejects_falsy [OF r, of "[(''query'', VStr ''cats''), (''limit'', VInt 0)]"]
      validate_parameters_rejects_falsy [OF r, of "[(''query'', VStr ''cats''), (''limit'', VInt 10)]"]
      r
    by simp
qed

text \<open>
  C3. The claim gives crawl_website, search_website and map_links the same three
  steps for the limit: \<open>(limit|max|maximum|up to) <int>\<close>, then a standalone
  \<open><int> (pages|links|results)\<close>, then the default. Only the crawl_website branch
  has the second step. On \<open>5 results\<close> and \<open>30 links\<close> the search_website and
  map_links branches fall to their defaults 10 and 20, while the crawl_website branch
  reads 15 from \<open>15 pages\<close>, and reads 5 from the first of these texts.
\<close>

theorem standalone_number_only_for_crawl:
  "extract_parameters ''search the web for cats 5 results'' ''search_website'' =
     Inr [(''query'', VStr ''the web for cats 5 results''), (''limit'', VInt 10)] \<and>
   extract_parameters ''map links on https://site.io 30 links'' ''map_links'' =
     Inr [(''url'', VStr ''https://site.io''), (''search'', VStr []), (''limit'', VInt 20)] \<and>
   extract_parameters ''crawl https://example.com 15 pages'' ''crawl_website'' =
     Inr [(''url'', VStr ''https://example.com''), (''limit'', VInt 15)] \<and>
   extract_parameters ''search the web for cats 5 results'' ''crawl_website'' =
     Inr [(''limit'', VInt 5)] \<and>
   identify_tool (FirecrawlAgent [] Inr) ''search the web for cats 5 results'' =
     Some ''search_website''"
  by code_simp

text \<open>
  C4 as stated: for \<open>search for rust async runtimes limit 5\<close> the extracted query is
  \<open>rust async runtimes\<close>. Only the command phrases are removed from the text; the
  words \<open>limit 5\<close> stay in the query.
\<close>

theorem search_query_keeps_limit_counterexample:
  "extract_parameters ''search for rust async runtimes limit 5'' ''search_website'' \<noteq>
     Inr [(''query'', VStr ''rust async runtimes''), (''limit'', VInt 5)] \<and>
   extract_parameters ''search for rust async runtimes limit 5'' ''search_website'' =
     Inr [(''query'', VStr ''rust async runtimes limit 5''), (''limit'', VInt 5)]"
  by code_simp

text \<open>
  C4, amended: for \<open>search for rust async runtimes limit 5\<close> identify_tool returns
  search_website and extraction gives query \<open>rust async runtimes limit 5\<close> and limit
  5. For every text, the query of search_website is the text with the matches of
  \<open>\bsearch for\b\<close>, then \<open>\bfind\b\<close>, then \<open>\blook for\b\<close>, then \<open>\bsearch\b\<close>
  removed (ignoring case), stripped of surrounding white space; when that is empty
  the argument set is kept as it is and the validator rejects it. The one exception is
  a text whose limit phrase has more than 4300 digits: there \<open>int\<close> raises ValueError
  and extraction gives no argument set.
\<close>

theorem search_query_is_text_without_phrases:
  "identify_tool (FirecrawlAgent ts llm) ''search for rust async runtimes limit 5'' =
     Some ''search_website'' \<and>
   extract_parameters ''search for rust async runtimes limit 5'' ''search_website'' =
     Inr [(''query'', VStr ''rust async runtimes limit 5''), (''limit'', VInt 5)] \<and>
   (over_long limit_re (lower text) \<longrightarrow>
      extract_parameters text ''search_website'' = Inl ValueError) \<and>
   (\<not> over_long limit_re (lower text) \<longrightarrow>
      (\<exists>n. extract_parameters text ''search_website'' =
             Inr [(''query'', VStr (strip (re_sub True (phrase_re ''search'') []
                   (re_sub True (phrase_re ''look for'') []
                     (re_sub True (phrase_re ''find'') []
                       (re_sub True (phrase_re ''search for'') [] text)))))), (''limit'', VInt n)] \<and>
           (strip (re_sub True (phrase_re ''search'') []
                   (re_sub True (phrase_re ''look for'') []
                     (re_sub True (phrase_re ''find'') []
                       (re_sub True (phrase_re ''search for'') [] text)))) = [] \<longrightarrow>
            \<not> validate_parameters ''search_website''
                [(''query'', VStr (strip (re_sub True (phrase_re ''search'') []
                   (re_sub True (phrase_re ''look for'') []
                     (re_sub True (phrase_re ''find'') []
                       (re_sub True (phrase_re ''search for'') [] text)))))), (''limit'', VInt n)])))"
proof -
  have sc: "scan_catalog catalog (lower ''search for rust async runtimes limit 5'') = None"
    by code_simp
  have k1: "\<not> any_in [''http'', ''www'', ''.com'', ''.org'', ''.net'']
                 (lower ''search for rust async runtimes limit 5'')"
    by code_simp
  have k2: "any_in [''search'', ''find''] (lower ''search for rust async runtimes limit 5'')"
    by code_simp
  have a: "identify_tool (FirecrawlAgent ts llm) ''search for rust async runtimes limit 5'' =
             Some ''search_website''"
    unfolding identify_tool_def tool_patterns_FirecrawlAgent Let_def sc
    using k1 k2 by simp
  have b: "extract_parameters ''search for rust async runtimes limit 5'' ''search_website'' =
             Inr [(''query'', VStr ''rust async runtimes limit 5''), (''limit'', VInt 5)]"
    by code_simp
  let ?q = "strip (re_sub True (phrase_re ''search'') []
                   (re_sub True (phrase_re ''look for'') []
                     (re_sub True (phrase_re ''find'') []
                       (re_sub True (phrase_re ''search for'') [] text))))"
  have q: "strip (strip_phrases text) = ?q"
    by (simp add: strip_phrases_def)
  let ?p = "AList.update ''query'' (VStr (strip (strip_phrases text))) []"
  have e: "extract_parameters text ''search_website'' =
             (case re_search False limit_re (lower text) of
                Some limit_match \<Rightarrow> set_int ''limit'' limit_match ?p
              | None \<Rightarrow> Inr (AList.update ''limit'' (VInt 10) ?p))"
    unfolding extract_parameters_def extract_search_def Let_def by simp
  have c: "over_long limit_re (lower text) \<longrightarrow>
             extract_parameters text ''search_website'' = Inl ValueError"
    unfolding e by (blast intro: limit_raises)
  have r: "map_of required_params ''search_website'' = Some [''query'', ''limit'']"
    by (simp add: required_params_def)
  have d: "\<not> over_long limit_re (lower text) \<longrightarrow>
             (\<exists>n. extract_parameters text ''search_website'' =
                    Inr [(''query'', VStr ?q), (''limit'', VInt n)] \<and>
                  (?q = [] \<longrightarrow>
                   \<not> validate_parameters ''search_website''
                       [(''query'', VStr ?q), (''limit'', VInt n)]))"
  proof
    assume "\<not> over_long limit_re (lower text)"
    from limit_returns [OF this, where params = ?p and d = 10] obtain n where
      "extract_parameters text ''search_website'' = Inr (AList.update ''limit'' (VInt n) ?p)"
      unfolding e by blast
    then have x: "extract_parameters text ''search_website'' =
                    Inr [(''query'', VStr ?q), (''limit'', VInt n)]"
      by (simp add: q)
    have "?q = [] \<longrightarrow>
            \<not> validate_parameters ''search_website'' [(''query'', VStr ?q), (''limit'', VInt n)]"
      unfolding validate_parameters_def r option.case check_required_iff by simp
    with x show "\<exists>n. extract_parameters text ''search_website'' =
                    Inr [(''query'', VStr ?q), (''limit'', VInt n)] \<and>
                  (?q = [] \<longrightarrow>
                   \<not> validate_parameters ''search_website''
                       [(''query'', VStr ?q), (''limit'', VInt n)])"
      by blast
  qed
  from a b c d show ?thesis by blast
qed

theorem search_query_is_text_without_phrases_witness:
  "\<not> over_long limit_re (lower ''Search for'') \<and>
   strip (re_sub True (phrase_re ''search'') []
           (re_sub True (phrase_re ''look for'') []
             (re_sub True (phrase_re ''find'') []
               (re_sub True (phrase_re ''search for'') [] ''Search for'')))) = [] \<and>
   (\<exists>n. extract_parameters ''Search for'' ''search_website'' =
          Inr [(''query'', VStr []), (''limit'', VInt n)] \<and>
        \<not> validate_parameters ''search_website'' [(''query'', VStr []), (''limit'', VInt n)])"
proof -
  have o: "\<not> over_long limit_re (lower ''Search for'')"
    by code_simp
  have e: "strip (re_sub True (phrase_re ''search'') []
                   (re_sub True (phrase_re ''look for'') []
                     (re_sub True (phrase_re ''find'') []
                       (re_sub True (phrase_re ''search for'') [] ''Search for'')))) = []"
    by code_simp
  from search_query_is_text_without_phrases [of "[]" Inr "''Search for''"] o
  have "\<exists>n. extract_parameters ''Search for'' ''search_website'' =
              Inr [(''query'', VStr []), (''limit'', VInt n)] \<and>
            \<not> validate_parameters ''search_website'' [(''query'', VStr []), (''limit'', VInt n)]"
    unfolding e by blast
  with o e show ?thesis by blast
qed

text \<open>
  C5 as stated: every text with an http/https URL and none of the crawl or link
  keywords is given to scrape_website. The catalog is tried before the fallback, so a
  text with a URL that a catalog pattern of another tool matches goes to that tool.
\<close>

theorem url_text_taken_by_catalog_counterexample:
  "contains ''https://'' ''web search https://example.com'' \<and>
   \<not> any_in [''crawl'', ''multiple'', ''pages'', ''limit'']
         (lower ''web search https://example.com'') \<and>
   \<not> any_in [''links'', ''map'', ''discover''] (lower ''web search https://example.com'') \<and>
   identify_tool (FirecrawlAgent [] Inr) ''web search https://example.com'' =
     Some ''search_website'' \<and>
   identify_tool (FirecrawlAgent [] Inr) ''web search https://example.com'' \<noteq>
     Some ''scrape_website''"
  by code_simp

text \<open>
  C5, amended: a text that contains \<open>http://\<close> or \<open>https://\<close>, in which no pattern
  of a catalog entry other than scrape_website is found, and whose lower-cased form
  holds none of the crawl keywords and none of the link keywords, is given to
  scrape_website.
\<close>

theorem url_text_scrapes_unless_other_rule:
  assumes url: "contains ''http://'' text \<or> contains ''https://'' text"
    and no_rule: "\<forall>(tool_name, patterns)\<in>set catalog.
                    tool_name \<noteq> ''scrape_website'' \<longrightarrow>
                    (\<forall>p\<in>set patterns. re_search False p (lower text) = None)"
    and no_crawl: "\<not> any_in [''crawl'', ''multiple'', ''pages'', ''limit''] (lower text)"
    and no_link: "\<not> any_in [''links'', ''map'', ''discover''] (lower text)"
  shows "identify_tool (FirecrawlAgent ts llm) text = Some ''scrape_website''"
proof -
  have "contains ''http'' text"
    using url contains_part [of "''http''" "''://''" "text"]
      contains_part [of "''http''" "''s://''" "text"] by auto
  then have "contains (lower ''http'') (lower text)" by (rule contains_lower)
  moreover have "lower ''http'' = ''http''" by code_simp
  ultimately have h: "any_in [''http'', ''www'', ''.com'', ''.org'', ''.net''] (lower text)"
    by (simp add: any_in_def)
  from no_rule have
    n: "\<not> any_pattern crawl_patterns (lower text)"
       "\<not> any_pattern search_patterns (lower text)"
       "\<not> any_pattern map_patterns (lower text)"
       "\<not> any_pattern extract_patterns (lower text)"
       "\<not> any_pattern deep_patterns (lower text)"
    by (simp_all add: catalog_def any_pattern_iff matches_def)
  have sc: "scan_catalog catalog (lower text) =
              (if any_pattern scrape_patterns (lower text) then Some ''scrape_website'' else None)"
    using n by (simp add: catalog_def)
  show ?thesis
    unfolding identify_tool_def tool_patterns_FirecrawlAgent Let_def sc
    using h no_crawl no_link by simp
qed

theorem url_text_scrapes_unless_other_rule_witness:
  "(contains ''http://'' ''scrape the page https://example.com'' \<or>
    contains ''https://'' ''scrape the page https://example.com'') \<and>
   any_pattern scrape_patterns (lower ''scrape the page https://example.com'') \<and>
   identify_tool (FirecrawlAgent [] Inr) ''scrape the page https://example.com'' =
     Some ''scrape_website''"
proof -
  have a: "contains ''http://'' ''scrape the page https://example.com'' \<or>
           contains ''https://'' ''scrape the page https://example.com''"
    by code_simp
  have b: "\<forall>(tool_name, patterns)\<in>set catalog.
             tool_name \<noteq> ''scrape_website'' \<longrightarrow>
             (\<forall>p\<in>set patterns.
                re_search False p (lower ''scrape the page https://example.com'') = None)"
    by code_simp
  have c: "\<not> any_in [''crawl'', ''multiple'', ''pages'', ''limit'']
                (lower ''scrape the page https://example.com'')"
    by code_simp
  have d: "\<not> any_in [''links'', ''map'', ''discover'']
                (lower ''scrape the page https://example.com'')"
    by code_simp
  have e: "any_pattern scrape_patterns (lower ''scrape the page https://example.com'')"
    by code_simp
  from url_text_scrapes_unless_other_rule [OF a b c d, of "[]" Inr] a e
  show ?thesis by blast
qed

text \<open>
  C6. The claim multiplies the captured integer by 60 exactly when the unit matched
  in the phrase is a minute form. The code multiplies when \<open>minute\<close> occurs anywhere
  in the text: here the phrase matched is \<open>timeout 30 seconds\<close> (characters 16 to 34)
  and the time limit comes out as 1800.
\<close>

theorem seconds_multiplied_by_stray_minute:
  "re_search False time_re (lower ''research on tea timeout 30 seconds not one minute'') =
     Some (RMatch 16 34 (Some ''30'')) \<and>
   extract_parameters ''research on tea timeout 30 seconds not one minute'' ''deep_analysis'' =
     Inr [(''query'', VStr ''on tea timeout 30 seconds not one minute''),
          (''time_limit'', VInt 1800)] \<and>
   identify_tool (FirecrawlAgent [] Inr) ''research on tea timeout 30 seconds not one minute'' =
     Some ''deep_analysis''"
  by code_simp

text \<open>
  C7 as stated: the format is html only when \<open>html\<close> stands in the text as a token
  of its own, so a text with \<open>xhtml\<close> sets no format. The code tests
  \<open>'html' in user_input_lower\<close>, which is true of \<open>xhtml\<close>.
\<close>

theorem format_inside_word_counterexample:
  "\<not> matches (phrase_re ''html'') (lower ''scrape https://example.com as xhtml'') \<and>
   extract_parameters ''scrape https://example.com as xhtml'' ''scrape_website'' =
     Inr [(''url'', VStr ''https://example.com''), (''formats'', VList [''html''])]"
  by code_simp

text \<open>
  C7, amended: for scrape_website the extracted format is html exactly when the
  lower-cased text contains \<open>html\<close> as a substring; otherwise json when it contains
  \<open>json\<close>; otherwise markdown when it contains \<open>markdown\<close> or \<open>md\<close>; otherwise no
  format is set.
\<close>

theorem scrape_format_by_substring:
  "\<exists>params. extract_parameters text ''scrape_website'' = Inr params \<and>
     map_of params ''formats'' =
       (if contains ''html'' (lower text) then Some (VList [''html''])
        else if contains ''json'' (lower text) then Some (VList [''json''])
        else if contains ''markdown'' (lower text) \<or> contains ''md'' (lower text)
        then Some (VList [''markdown''])
        else None)"
  by (simp add: extract_parameters_def extract_scrape_def Let_def update_conv'
        map_of_set_url_other)

theorem scrape_format_by_substring_witness:
  "\<exists>params. extract_parameters ''get https://example.com as cmd output'' ''scrape_website'' =
       Inr params \<and>
     map_of params ''formats'' = Some (VList [''markdown''])"
proof -
  have a: "\<not> contains ''html'' (lower ''get https://example.com as cmd output'')"
    by code_simp
  have b: "\<not> contains ''json'' (lower ''get https://example.com as cmd output'')"
    by code_simp
  have c: "contains ''md'' (lower ''get https://example.com as cmd output'')"
    by code_simp
  show ?thesis
    using scrape_format_by_substring [of "''get https://example.com as cmd output''"] a b c
    by (simp only: if_False if_True simp_thms)
qed

text \<open>
  C8. When the remote call behind a tool function raises an Exception, the tool
  function returns the error payload built from its message instead of raising, and
  this holds for each of the six tool functions. process_request never raises an
  Exception to its caller; and when the tools and the fallback agent raise nothing
  but Exceptions, process_request returns a reply on every text.
\<close>

theorem failures_become_error_payloads:
  assumes "is_exception e"
  shows "(app_scrape_url app url1 formats1 main1 = Inl e \<longrightarrow>
            scrape_website app url1 formats1 main1 = Inr (ErrorJson (exc_str e))) \<and>
         (app_crawl_url app url2 limit2 formats2 main2 = Inl e \<longrightarrow>
            crawl_website app url2 limit2 formats2 main2 = Inr (ErrorJson (exc_str e))) \<and>
         (app_search app query3 limit3 formats3 main3 = Inl e \<longrightarrow>
            search_website app query3 limit3 formats3 main3 = Inr (ErrorJson (exc_str e))) \<and>
         (app_map_url app url4 limit4 search4 = Inl e \<longrightarrow>
            map_links app url4 limit4 search4 = Inr (ErrorJson (exc_str e))) \<and>
         (app_extract app urls5 prompt5 schema5 = Inl e \<longrightarrow>
            extract_content app urls5 prompt5 schema5 = Inr (ErrorJson (exc_str e))) \<and>
         (app_deep_research app query6 depth6 time6 = Inl e \<longrightarrow>
            deep_analysis app query6 depth6 time6 = Inr (ErrorJson (exc_str e))) \<and>
         process_request self user_input \<noteq> Inl e \<and>
         ((\<forall>x e'. agent_run self x = Inl e' \<longrightarrow> is_exception e') \<and>
          (\<forall>t\<in>set (tools self). \<forall>p e'. run t p = Inl e' \<longrightarrow> is_exception e') \<longrightarrow>
          (\<exists>r. process_request self user_input = Inr r))"
proof -
  have w: "(app_scrape_url app url1 formats1 main1 = Inl e \<longrightarrow>
            scrape_website app url1 formats1 main1 = Inr (ErrorJson (exc_str e))) \<and>
         (app_crawl_url app url2 limit2 formats2 main2 = Inl e \<longrightarrow>
            crawl_website app url2 limit2 formats2 main2 = Inr (ErrorJson (exc_str e))) \<and>
         (app_search app query3 limit3 formats3 main3 = Inl e \<longrightarrow>
            search_website app query3 limit3 formats3 main3 = Inr (ErrorJson (exc_str e))) \<and>
         (app_map_url app url4 limit4 search4 = Inl e \<longrightarrow>
            map_links app url4 limit4 search4 = Inr (ErrorJson (exc_str e))) \<and>
         (app_extract app urls5 prompt5 schema5 = Inl e \<longrightarrow>
            extract_content app urls5 prompt5 schema5 = Inr (ErrorJson (exc_str e))) \<and>
         (app_deep_research app query6 depth6 time6 = Inl e \<longrightarrow>
            deep_analysis app query6 depth6 time6 = Inr (ErrorJson (exc_str e)))"
    using assms
    by (simp add: scrape_website_def crawl_website_def search_website_def map_links_def
          extract_content_def deep_analysis_def)
  have p: "process_request self user_input \<noteq> Inl e"
    using assms by (auto simp: process_request_def split: sum.splits if_splits)
  have q: "(\<forall>x e'. agent_run self x = Inl e' \<longrightarrow> is_exception e') \<and>
           (\<forall>t\<in>set (tools self). \<forall>p e'. run t p = Inl e' \<longrightarrow> is_exception e') \<longrightarrow>
           (\<exists>r. process_request self user_input = Inr r)"
  proof
    assume h: "(\<forall>x e'. agent_run self x = Inl e' \<longrightarrow> is_exception e') \<and>
               (\<forall>t\<in>set (tools self). \<forall>p e'. run t p = Inl e' \<longrightarrow> is_exception e')"
    show "\<exists>r. process_request self user_input = Inr r"
    proof (cases "try_body self user_input")
      case (Inl e')
      from try_body_raises [OF Inl] h have "is_exception e'" by blast
      with Inl show ?thesis by (simp add: process_request_def)
    next
      case (Inr r)
      then show ?thesis by (simp add: process_request_def)
    qed
  qed
  from w p q show ?thesis by blast
qed

theorem failures_become_error_payloads_witness:
  "is_exception (OtherException ''connection refused'') \<and>
   scrape_website
     \<lparr>app_scrape_url = (\<lambda>url formats onlyMainContent. Inl (OtherException ''connection refused'')),
      app_crawl_url = (\<lambda>url limit formats onlyMainContent. Inr ''[]''),
      app_search = (\<lambda>query limit formats onlyMainContent. Inr ''[]''),
      app_map_url = (\<lambda>url limit search_term. Inr ''[]''),
      app_extract = (\<lambda>urls prompt content_schema. Inr ''{}''),
      app_deep_research = (\<lambda>query max_depth time_limit. Inr ''{}'')\<rparr>
     ''https://example.com'' None None = Inr (ErrorJson ''connection refused'') \<and>
   (\<exists>r. process_request
          (FirecrawlAgent
             [\<lparr>name = ''crawl_website'',
               run = (\<lambda>params. Inl (OtherException ''connection refused''))\<rparr>]
             (\<lambda>user_input. Inl (OtherException ''connection refused'')))
          ''crawl https://example.com limit 5'' = Inr r)"
proof -
  let ?e = "OtherException ''connection refused''"
  let ?app = "\<lparr>app_scrape_url = (\<lambda>url formats onlyMainContent. Inl ?e),
      app_crawl_url = (\<lambda>url limit formats onlyMainContent. Inr ''[]''),
      app_search = (\<lambda>query limit formats onlyMainContent. Inr ''[]''),
      app_map_url = (\<lambda>url limit search_term. Inr ''[]''),
      app_extract = (\<lambda>urls prompt content_schema. Inr ''{}''),
      app_deep_research = (\<lambda>query max_depth time_limit. Inr ''{}'')\<rparr>"
  let ?ag = "FirecrawlAgent [\<lparr>name = ''crawl_website'', run = (\<lambda>params. Inl ?e)\<rparr>]
               (\<lambda>user_input. Inl ?e)"
  have i: "is_exception ?e" by simp
  note t = failures_become_error_payloads [OF i, where app = ?app and self = ?ag
      and user_input = "''crawl https://example.com limit 5''"
      and ?url1.0 = "''https://example.com''" and ?formats1.0 = None and ?main1.0 = None]
  have r: "app_scrape_url ?app ''https://example.com'' None None = Inl ?e" by simp
  from t [THEN conjunct1, THEN mp, OF r]
  have a: "scrape_website ?app ''https://example.com'' None None =
             Inr (ErrorJson ''connection refused'')"
    by simp
  have h: "(\<forall>x e'. agent_run ?ag x = Inl e' \<longrightarrow> is_exception e') \<and>
           (\<forall>t\<in>set (tools ?ag). \<forall>p e'. run t p = Inl e' \<longrightarrow> is_exception e')"
    by (auto simp: FirecrawlAgent_def)
  from t [THEN conjunct2, THEN conjunct2, THEN conjunct2, THEN conjunct2, THEN conjunct2,
          THEN conjunct2, THEN conjunct2, THEN mp, OF h]
  have b: "\<exists>r. process_request ?ag ''crawl https://example.com limit 5'' = Inr r" .
  from i a b show ?thesis by blast
qed

text \<open>
  C10 as stated: every text without the substring \<open>about\<close> gets an empty \<open>search\<close>
  for map_links and is never dispatched. The code looks for \<open>about\<close> in the
  lower-cased text: a text with \<open>ABOUT\<close> has no substring \<open>about\<close>, yet its search
  term is captured, validation passes and the tool runs.
\<close>

theorem map_links_upper_case_about_counterexample:
  "\<not> contains ''about'' ''map links ABOUT pricing on https://site.io'' \<and>
   identify_tool
     (FirecrawlAgent [\<lparr>name = ''map_links'', run = (\<lambda>params. Inr ''links'')\<rparr>]
        (\<lambda>user_input. Inr ''free-form answer''))
     ''map links ABOUT pricing on https://site.io'' = Some ''map_links'' \<and>
   extract_parameters ''map links ABOUT pricing on https://site.io'' ''map_links'' =
     Inr [(''url'', VStr ''https://site.io''), (''search'', VStr ''pricing on https://site''),
          (''limit'', VInt 20)] \<and>
   validate_parameters ''map_links''
     [(''url'', VStr ''https://site.io''), (''search'', VStr ''pricing on https://site''),
      (''limit'', VInt 20)] \<and>
   process_request
     (FirecrawlAgent [\<lparr>name = ''map_links'', run = (\<lambda>params. Inr ''links'')\<rparr>]
        (\<lambda>user_input. Inr ''free-form answer''))
     ''map links ABOUT pricing on https://site.io'' =
     Inr (ToolResult ''map_links''
            [(''url'', VStr ''https://site.io''), (''search'', VStr ''pricing on https://site''),
             (''limit'', VInt 20)]
            ''links'')"
  by code_simp

text \<open>
  C10, amended: for every text whose lower-cased form does not contain \<open>about\<close>,
  extraction for map_links sets \<open>search\<close> to the empty string, whatever URL and limit
  it found, and the validator rejects the argument set; when identify_tool chose
  map_links, process_request returns what the fallback \<open>self.agent.run\<close> gives (under
  the same exception handler) if the tool is registered, and the not-found text if it
  is not. The one exception is a text whose limit phrase has more than 4300 digits:
  there \<open>int\<close> raises ValueError, extraction gives no argument set and
  process_request returns the error text. In no case is a tool run.
\<close>

theorem map_links_without_about_not_dispatched:
  assumes "\<not> contains ''about'' (lower text)"
  shows "(over_long limit_re (lower text) \<longrightarrow>
            extract_parameters text ''map_links'' = Inl ValueError \<and>
            (identify_tool self text = Some ''map_links'' \<longrightarrow>
               process_request self text = Inr (ErrorReply (exc_str ValueError)))) \<and>
         (\<not> over_long limit_re (lower text) \<longrightarrow>
            (\<exists>params.
               extract_parameters text ''map_links'' = Inr params \<and>
               map_of params ''search'' = Some (VStr []) \<and>
               \<not> validate_parameters ''map_links'' params) \<and>
            (identify_tool self text = Some ''map_links'' \<longrightarrow>
               process_request self text =
                 (case find (\<lambda>t. name t = ''map_links'') (tools self) of
                    None \<Rightarrow> Inr (ToolNotFound ''map_links'' (map name (tools self)))
                  | Some selected_tool \<Rightarrow>
                      (case agent_run self text of
                         Inl e \<Rightarrow> if is_exception e then Inr (ErrorReply (exc_str e)) else Inl e
                       | Inr answer \<Rightarrow> Inr (AgentAnswer answer))))) \<and>
         (identify_tool self text = Some ''map_links'' \<longrightarrow>
            (\<forall>tool_name params result.
               process_request self text \<noteq> Inr (ToolResult tool_name params result)))"
proof -
  let ?p = "AList.update ''search'' (VStr []) (set_url (re_findall False url_pattern text) [])"
  have e: "extract_parameters text ''map_links'' =
             (case re_search False limit_re (lower text) of
                Some limit_match \<Rightarrow> set_int ''limit'' limit_match ?p
              | None \<Rightarrow> Inr (AList.update ''limit'' (VInt 20) ?p))"
    unfolding extract_parameters_def extract_map_def about_terms_def Let_def
    using assms by simp
  have a: "over_long limit_re (lower text) \<longrightarrow>
             extract_parameters text ''map_links'' = Inl ValueError \<and>
             (identify_tool self text = Some ''map_links'' \<longrightarrow>
                process_request self text = Inr (ErrorReply (exc_str ValueError)))"
  proof
    assume "over_long limit_re (lower text)"
    from limit_raises [OF this, where params = ?p and d = 20]
    have x: "extract_parameters text ''map_links'' = Inl ValueError"
      unfolding e .
    then show "extract_parameters text ''map_links'' = Inl ValueError \<and>
               (identify_tool self text = Some ''map_links'' \<longrightarrow>
                  process_request self text = Inr (ErrorReply (exc_str ValueError)))"
      by (simp add: process_request_def try_body_def)
  qed
  have r: "map_of required_params ''map_links'' = Some [''url'', ''limit'', ''search'']"
    by (simp add: required_params_def)
  have b: "\<not> over_long limit_re (lower text) \<longrightarrow>
            (\<exists>params.
               extract_parameters text ''map_links'' = Inr params \<and>
               map_of params ''search'' = Some (VStr []) \<and>
               \<not> validate_parameters ''map_links'' params) \<and>
            (identify_tool self text = Some ''map_links'' \<longrightarrow>
               process_request self text =
                 (case find (\<lambda>t. name t = ''map_links'') (tools self) of
                    None \<Rightarrow> Inr (ToolNotFound ''map_links'' (map name (tools self)))
                  | Some selected_tool \<Rightarrow>
                      (case agent_run self text of
                         Inl e \<Rightarrow> if is_exception e then Inr (ErrorReply (exc_str e)) else Inl e
                       | Inr answer \<Rightarrow> Inr (AgentAnswer answer))))"
  proof
    assume "\<not> over_long limit_re (lower text)"
    from limit_returns [OF this, where params = ?p and d = 20] obtain n where
      x: "extract_parameters text ''map_links'' = Inr (AList.update ''limit'' (VInt n) ?p)"
      unfolding e by blast
    have s: "map_of (AList.update ''limit'' (VInt n) ?p) ''search'' = Some (VStr [])"
      by (simp add: update_conv')
    have v: "\<not> validate_parameters ''map_links'' (AList.update ''limit'' (VInt n) ?p)"
      unfolding validate_parameters_def r option.case check_required_iff
      using s by simp
    have p: "identify_tool self text = Some ''map_links'' \<longrightarrow>
               process_request self text =
                 (case find (\<lambda>t. name t = ''map_links'') (tools self) of
                    None \<Rightarrow> Inr (ToolNotFound ''map_links'' (map name (tools self)))
                  | Some selected_tool \<Rightarrow>
                      (case agent_run self text of
                         Inl e \<Rightarrow> if is_exception e then Inr (ErrorReply (exc_str e)) else Inl e
                       | Inr answer \<Rightarrow> Inr (AgentAnswer answer)))"
      using x v
      by (simp add: process_request_def try_body_def fallback_def
            split: option.splits sum.splits)
    from x s v p show
      "(\<exists>params.
          extract_parameters text ''map_links'' = Inr params \<and>
          map_of params ''search'' = Some (VStr []) \<and>
          \<not> validate_parameters ''map_links'' params) \<and>
       (identify_tool self text = Some ''map_links'' \<longrightarrow>
          process_request self text =
            (case find (\<lambda>t. name t = ''map_links'') (tools self) of
               None \<Rightarrow> Inr (ToolNotFound ''map_links'' (map name (tools self)))
             | Some selected_tool \<Rightarrow>
                 (case agent_run self text of
                    Inl e \<Rightarrow> if is_exception e then Inr (ErrorReply (exc_str e)) else Inl e
                  | Inr answer \<Rightarrow> Inr (AgentAnswer answer))))"
      by blast
  qed
  have c: "identify_tool self text = Some ''map_links'' \<longrightarrow>
             (\<forall>tool_name params result.
                process_request self text \<noteq> Inr (ToolResult tool_name params result))"
  proof (cases "over_long limit_re (lower text)")
    case True
    with a show ?thesis by simp
  next
    case False
    with b show ?thesis by (auto split: option.splits sum.splits)
  qed
  from a b c show ?thesis by blast
qed

theorem map_links_without_about_not_dispatched_witness:
  "\<not> contains ''about'' (lower ''map links on https://site.io limit 30'') \<and>
   \<not> over_long limit_re (lower ''map links on https://site.io limit 30'') \<and>
   identify_tool
     (FirecrawlAgent [\<lparr>name = ''map_links'', run = (\<lambda>params. Inr ''links'')\<rparr>]
        (\<lambda>user_input. Inr ''free-form answer''))
     ''map links on https://site.io limit 30'' = Some ''map_links'' \<and>
   process_request
     (FirecrawlAgent [\<lparr>name = ''map_links'', run = (\<lambda>params. Inr ''links'')\<rparr>]
        (\<lambda>user_input. Inr ''free-form answer''))
     ''map links on https://site.io limit 30'' = Inr (AgentAnswer ''free-form answer'')"
proof -
  let ?ag = "FirecrawlAgent [\<lparr>name = ''map_links'', run = (\<lambda>params. Inr ''links'')\<rparr>]
               (\<lambda>user_input. Inr ''free-form answer'')"
  have a: "\<not> contains ''about'' (lower ''map links on https://site.io limit 30'')"
    by code_simp
  have o: "\<not> over_long limit_re (lower ''map links on https://site.io limit 30'')"
    by code_simp
  have i: "identify_tool ?ag ''map links on https://site.io limit 30'' = Some ''map_links''"
    by code_simp
  from map_links_without_about_not_dispatched [OF a, of ?ag] o i
  have "process_request ?ag ''map links on https://site.io limit 30'' =
          (case find (\<lambda>t. name t = ''map_links'') (tools ?ag) of
             None \<Rightarrow> Inr (ToolNotFound ''map_links'' (map name (tools ?ag)))
           | Some selected_tool \<Rightarrow>
               (case agent_run ?ag ''map links on https://site.io limit 30'' of
                  Inl e \<Rightarrow> if is_exception e then Inr (ErrorReply (exc_str e)) else Inl e
                | Inr answer \<Rightarrow> Inr (AgentAnswer answer)))"
    by blast
  then have "process_request ?ag ''map links on https://site.io limit 30'' =
               Inr (AgentAnswer ''free-form answer'')"
    by (simp add: FirecrawlAgent_def)
  with a o i show ?thesis by blast
qed

end
